theory Spec2Isabelle
  imports Main "HOL-Library.Word" "HOL-Library.Monad_Syntax" "HOL-Library.Signed_Division"
begin

unbundle bit_operations_syntax

section \<open>TMC2209 serial driver core: machine types and header constants\<close>

text \<open>
  The driver is \<^verbatim>\<open>TMC2209.cpp\<close>, the third part of \<^verbatim>\<open>src/Core/Inc/robot.hpp\<close>.
  Its header \<^verbatim>\<open>peripherals/TMC2209.hpp\<close> (constants, unions with bit-fields, the
  \<^verbatim>\<open>Settings\<close> struct) is not among the sources. Constants whose value the
  specification fixes are defined below; every other declaration of the header is a field of
  the record \<open>header\<close> further down, and the functions take that record as a parameter.
\<close>

type_synonym uint8_t = "8 word"
type_synonym uint16_t = "16 word"
type_synonym uint32_t = "32 word"
type_synonym uint64_t = "64 word"

text \<open>Modelled from the spec: \<^verbatim>\<open>BITS_PER_BYTE\<close> of the missing header; the CRC
  processes "each of its 8 bits" and the datagram is a sequence of bytes.\<close>
definition BITS_PER_BYTE :: nat where
  "BITS_PER_BYTE = 8"

text \<open>Modelled from the spec: \<^verbatim>\<open>BYTE_MAX_VALUE\<close> of the missing header, the mask
  that selects one byte of the datagram.\<close>
definition BYTE_MAX_VALUE :: uint8_t where
  "BYTE_MAX_VALUE = 0xFF"

text \<open>Modelled from the spec: \<^verbatim>\<open>DATA_SIZE\<close> of the missing header; the payload is
  32 bits and byte reversal swaps byte 0 with byte 3 and byte 1 with byte 2.\<close>
definition DATA_SIZE :: nat where
  "DATA_SIZE = 4"

section \<open>Bit utilities\<close>

subsection \<open>\<^verbatim>\<open>TMC2209::reverseData\<close>\<close>

text \<open>
  \<^verbatim>\<open>for (uint8_t i = 0; i < DATA_SIZE; ++i)\<close> with the two shift amounts computed in
  each round. The counter stays below \<open>DATA_SIZE\<close>, so it is a \<open>nat\<close>; both shift
  amounts stay below 32.
\<close>

function reverseData_loop :: "nat \<Rightarrow> uint32_t \<Rightarrow> uint32_t \<Rightarrow> uint32_t" where
  "reverseData_loop i data reversed_data =
     (if i < DATA_SIZE then
        let right_shift = (DATA_SIZE - i - 1) * BITS_PER_BYTE;
            left_shift = i * BITS_PER_BYTE
        in reverseData_loop (i + 1) data
             (reversed_data OR
                push_bit left_shift (drop_bit right_shift data AND ucast BYTE_MAX_VALUE))
      else reversed_data)"
  by pat_completeness auto
termination
  by (relation "measure (\<lambda>(i, data, r). DATA_SIZE - i)") auto

declare reverseData_loop.simps [simp del]

definition reverseData :: "uint32_t \<Rightarrow> uint32_t" where
  "reverseData data = reverseData_loop 0 data 0"


subsection \<open>\<^verbatim>\<open>TMC2209::calculateCrc\<close>\<close>

text \<open>
  Byte \<open>i\<close> of a datagram,
  \<^verbatim>\<open>(datagram.bytes >> (i * BITS_PER_BYTE)) & BYTE_MAX_VALUE\<close>: the expression occurs
  in \<^verbatim>\<open>calculateCrc\<close> and in both send functions. \<^verbatim>\<open>datagram.bytes\<close> is the
  \<^verbatim>\<open>uint32_t\<close> or \<^verbatim>\<open>uint64_t\<close> view of the datagram union, so the datagram is a
  word of any length. In C++ the shift is only defined for \<open>i * 8\<close> below that length;
  \<open>drop_bit\<close> gives 0 beyond it.
\<close>

definition datagram_byte :: "'a::len word \<Rightarrow> nat \<Rightarrow> uint8_t" where
  "datagram_byte datagram i =
     ucast (drop_bit (i * BITS_PER_BYTE) datagram AND ucast BYTE_MAX_VALUE)"

text \<open>
  The inner loop \<^verbatim>\<open>for (uint8_t j = 0; j < BITS_PER_BYTE; ++j)\<close>. The operands of
  \<^verbatim>\<open>(crc >> 7) ^ (byte & 0x01)\<close> are both 0 or 1, and the assignment to the
  \<^verbatim>\<open>uint8_t crc\<close> truncates to 8 bits, which is arithmetic on \<open>8 word\<close>.
\<close>

function calculateCrc_bits :: "nat \<Rightarrow> uint8_t \<Rightarrow> uint8_t \<Rightarrow> uint8_t" where
  "calculateCrc_bits j byte crc =
     (if j < BITS_PER_BYTE then
        calculateCrc_bits (j + 1) (drop_bit 1 byte)
          (if drop_bit 7 crc XOR (byte AND 0x01) \<noteq> 0 then push_bit 1 crc XOR 0x07
           else push_bit 1 crc)
      else crc)"
  by pat_completeness auto
termination
  by (relation "measure (\<lambda>(j, byte, crc). BITS_PER_BYTE - j)") auto

declare calculateCrc_bits.simps [simp del]

text \<open>
  The outer loop \<^verbatim>\<open>for (uint8_t i = 0; i < (datagram_size - 1); ++i)\<close>. The bound is
  computed in \<^verbatim>\<open>int\<close>, so size 0 gives \<open>-1\<close> and no round; the counter stays below
  255 and never wraps.
\<close>

function calculateCrc_bytes ::
  "nat \<Rightarrow> 'a::len word \<Rightarrow> uint8_t \<Rightarrow> uint8_t \<Rightarrow> uint8_t" where
  "calculateCrc_bytes i datagram datagram_size crc =
     (if int i < uint datagram_size - 1 then
        calculateCrc_bytes (i + 1) datagram datagram_size
          (calculateCrc_bits 0 (datagram_byte datagram i) crc)
      else crc)"
  by pat_completeness auto
termination
  by (relation "measure (\<lambda>(i, datagram, datagram_size, crc). nat (uint datagram_size - int i))")
    auto

declare calculateCrc_bytes.simps [simp del]

definition calculateCrc :: "'a::len word \<Rightarrow> uint8_t \<Rightarrow> uint8_t" where
  "calculateCrc datagram datagram_size = calculateCrc_bytes 0 datagram datagram_size 0"

subsection \<open>The CRC as the specification words it\<close>

text \<open>
  Written from the specification, to be compared with \<open>calculateCrc\<close>: "for every byte
  except the final (CRC) byte, for each of its 8 bits from least-significant to
  most-significant: if the top bit of the running CRC register differs from the current data
  bit, shift the CRC left by one and XOR with 0x07; otherwise shift left by one".
\<close>

definition crc8_update :: "uint8_t \<Rightarrow> bool \<Rightarrow> uint8_t" where
  "crc8_update crc data_bit =
     (if bit crc 7 \<noteq> data_bit then push_bit 1 crc XOR 0x07 else push_bit 1 crc)"

definition crc8_byte :: "uint8_t \<Rightarrow> uint8_t \<Rightarrow> uint8_t" where
  "crc8_byte byte crc = fold (\<lambda>k c. crc8_update c (bit byte k)) [0..<8] crc"

definition crc8 :: "uint8_t list \<Rightarrow> uint8_t" where
  "crc8 message = fold crc8_byte (butlast message) 0"

text \<open>The byte sequence of a datagram of \<open>n\<close> bytes, in transmission order.\<close>

definition datagram_bytes :: "'a::len word \<Rightarrow> nat \<Rightarrow> uint8_t list" where
  "datagram_bytes datagram n = map (datagram_byte datagram) [0..<n]"

text \<open>
  An independent reference: the textbook CRC-8 with polynomial 0x07 and initial value 0,
  which XORs a whole input byte into the register and then shifts eight times, most
  significant bit first. Processing each byte least-significant-bit first amounts to feeding it
  bit-reflected.
\<close>

definition reflect8 :: "uint8_t \<Rightarrow> uint8_t" where
  "reflect8 b = horner_sum of_bool 2 (map (\<lambda>k. bit b (7 - k)) [0..<8])"

definition crc8_shift :: "uint8_t \<Rightarrow> uint8_t" where
  "crc8_shift c = (if bit c 7 then push_bit 1 c XOR 0x07 else push_bit 1 c)"

definition crc8_reference :: "uint8_t list \<Rightarrow> uint8_t" where
  "crc8_reference bytes = fold (\<lambda>b c. (crc8_shift ^^ 8) (c XOR reflect8 b)) bytes 0"

section \<open>Declarations of the missing header\<close>

subsection \<open>Bit-fields\<close>

text \<open>
  The registers and datagrams are unions of an integer \<^verbatim>\<open>bytes\<close> with a struct of
  unsigned bit-fields. Such a union is modelled by the integer; a bit-field is the range of
  \<open>bf_width\<close> bits from bit \<open>bf_shift\<close> on. Reading a field gives its bits as a number;
  assigning to a field converts the value to the field's unsigned type, keeps its low
  \<open>bf_width\<close> bits and leaves every bit outside the range as it was.
\<close>

record bitfield =
  bf_shift :: nat
  bf_width :: nat

definition get_field :: "bitfield \<Rightarrow> 'a::len word \<Rightarrow> 'a word" where
  "get_field f w = take_bit (bf_width f) (drop_bit (bf_shift f) w)"

definition set_field :: "bitfield \<Rightarrow> 'b::len word \<Rightarrow> 'a::len word \<Rightarrow> 'a word" where
  "set_field f v w =
     (w AND NOT (push_bit (bf_shift f) (mask (bf_width f)))) OR
     push_bit (bf_shift f) (take_bit (bf_width f) (ucast v))"

text \<open>Two bit-fields of one struct never share a bit.\<close>

definition separate :: "bitfield \<Rightarrow> bitfield \<Rightarrow> bool" where
  "separate f g \<longleftrightarrow>
     bf_shift f + bf_width f \<le> bf_shift g \<or> bf_shift g + bf_width g \<le> bf_shift f"

subsection \<open>Constants and layouts\<close>

text \<open>Modelled from the spec: \<^verbatim>\<open>PERCENT_MIN\<close> and \<^verbatim>\<open>PERCENT_MAX\<close> of the missing
  header; percent parameters run from 0 to 100. They are arguments of the template
  \<^verbatim>\<open>map\<close> together with a \<^verbatim>\<open>uint8_t\<close> variable, hence \<^verbatim>\<open>uint8_t\<close>.\<close>
definition PERCENT_MIN :: uint8_t where
  "PERCENT_MIN = 0"

definition PERCENT_MAX :: uint8_t where
  "PERCENT_MAX = 100"

text \<open>Modelled from the spec: \<^verbatim>\<open>MICROSTEPS_PER_STEP_MIN\<close> and
  \<^verbatim>\<open>MICROSTEPS_PER_STEP_MAX\<close> of the missing header; microsteps per step are a power of
  two from 1 through 256.\<close>
definition MICROSTEPS_PER_STEP_MIN :: uint32_t where
  "MICROSTEPS_PER_STEP_MIN = 1"

definition MICROSTEPS_PER_STEP_MAX :: uint32_t where
  "MICROSTEPS_PER_STEP_MAX = 256"

text \<open>
  Every other constant and every bit-field layout the modelled functions use. The
  specification gives no values for them, so they are parameters. Constants are taken as
  \<^verbatim>\<open>uint8_t\<close> (the arguments of \<^verbatim>\<open>map\<close> must be), the two delays as
  \<^verbatim>\<open>uint32_t\<close>.
\<close>

record header =
  SYNC :: uint8_t
  RW_READ :: uint8_t
  RW_WRITE :: uint8_t
  READ_REQUEST_DATAGRAM_SIZE :: uint8_t
  WRITE_READ_REPLY_DATAGRAM_SIZE :: uint8_t
  ECHO_DELAY_MAX_MICROSECONDS :: uint32_t
  REPLY_DELAY_MAX_MICROSECONDS :: uint32_t
  ReadRequestDatagram_sync :: bitfield
  ReadRequestDatagram_serial_address :: bitfield
  ReadRequestDatagram_register_address :: bitfield
  ReadRequestDatagram_rw :: bitfield
  ReadRequestDatagram_crc :: bitfield
  WriteReadReplyDatagram_sync :: bitfield
  WriteReadReplyDatagram_serial_address :: bitfield
  WriteReadReplyDatagram_register_address :: bitfield
  WriteReadReplyDatagram_rw :: bitfield
  WriteReadReplyDatagram_data :: bitfield
  WriteReadReplyDatagram_crc :: bitfield
  ADDRESS_GCONF :: uint8_t
  ADDRESS_IOIN :: uint8_t
  ADDRESS_IHOLD_IRUN :: uint8_t
  ADDRESS_CHOPCONF :: uint8_t
  ADDRESS_COOLCONF :: uint8_t
  ADDRESS_PWMCONF :: uint8_t
  VERSION :: uint8_t
  Input_version :: bitfield
  GlobalConfig_i_scale_analog :: bitfield
  GlobalConfig_internal_rsense :: bitfield
  GlobalConfig_enable_spread_cycle :: bitfield
  GlobalConfig_shaft :: bitfield
  GlobalConfig_pdn_disable :: bitfield
  ChopperConfig_toff :: bitfield
  ChopperConfig_mres :: bitfield
  TOFF_DISABLE :: uint8_t
  MRES_256 :: uint8_t
  MRES_128 :: uint8_t
  MRES_064 :: uint8_t
  MRES_032 :: uint8_t
  MRES_016 :: uint8_t
  MRES_008 :: uint8_t
  MRES_004 :: uint8_t
  MRES_002 :: uint8_t
  MRES_001 :: uint8_t
  PwmConfig_pwm_offset :: bitfield
  PwmConfig_pwm_grad :: bitfield
  PwmConfig_freewheel :: bitfield
  PwmConfig_pwm_autoscale :: bitfield
  PwmConfig_pwm_autograd :: bitfield
  DriverCurrent_ihold :: bitfield
  DriverCurrent_irun :: bitfield
  DriverCurrent_iholddelay :: bitfield
  CURRENT_SETTING_MIN :: uint8_t
  CURRENT_SETTING_MAX :: uint8_t
  HOLD_DELAY_MIN :: uint8_t
  HOLD_DELAY_MAX :: uint8_t
  CoolConfig_semin :: bitfield
  CoolConfig_semax :: bitfield
  CoolConfig_seimin :: bitfield
  SEIMIN_UPPER_CURRENT_LIMIT :: uint8_t
  SEIMIN_LOWER_SETTING :: uint8_t
  SEIMIN_UPPER_SETTING :: uint8_t
  SEMIN_OFF :: uint8_t
  SEMIN_MIN :: uint8_t
  SEMIN_MAX :: uint8_t
  SEMAX_MIN :: uint8_t
  SEMAX_MAX :: uint8_t

text \<open>
  The fields of \<^verbatim>\<open>TMC2209::Settings\<close> that \<^verbatim>\<open>getSettings\<close> assigns. Fields it sets
  to \<^verbatim>\<open>false\<close> are \<open>bool\<close>, the step count is the \<^verbatim>\<open>uint16_t\<close> that
  \<^verbatim>\<open>getMicrostepsPerStep\<close> returns, the others are bytes.
\<close>

record Settings =
  is_communicating :: bool
  is_setup :: bool
  software_enabled :: bool
  microsteps_per_step :: uint16_t
  inverse_motor_direction_enabled :: bool
  stealth_chop_enabled :: bool
  standstill_mode :: uint8_t
  irun_percent :: uint8_t
  irun_register_value :: uint8_t
  ihold_percent :: uint8_t
  ihold_register_value :: uint8_t
  iholddelay_percent :: uint8_t
  iholddelay_register_value :: uint8_t
  automatic_current_scaling_enabled :: bool
  automatic_gradient_adaptation_enabled :: bool
  pwm_offset :: uint8_t
  pwm_gradient :: uint8_t
  cool_step_enabled :: bool
  analog_current_scaling_enabled :: bool
  internal_sense_resistors_enabled :: bool

section \<open>The serial transport\<close>

text \<open>
  The STM32 HAL is an external library. Its calls are recorded, in order, in a log, and what
  a call returns is given by an environment: a function of the number of HAL calls made
  before it. No assumption is made on the environment, so every behaviour of the link is
  covered: any status for any transmit or receive, any received bytes, and a receive flag that
  may stay set for ever.
\<close>

datatype HAL_StatusTypeDef = HAL_OK | HAL_ERROR | HAL_BUSY | HAL_TIMEOUT

datatype hal_call =
    UART_GET_FLAG_RXNE
  | UART_Transmit uint8_t nat
  | UART_Receive nat nat
  | GPIO_WritePin_GPIOA_PIN_5_SET
  | BSP_LED_On_LED_GREEN

record hal_env =
  rxne_flag :: "nat \<Rightarrow> bool"
  transmit_status :: "nat \<Rightarrow> HAL_StatusTypeDef"
  receive_status :: "nat \<Rightarrow> HAL_StatusTypeDef"
  receive_buffer :: "nat \<Rightarrow> nat \<Rightarrow> uint8_t"

text \<open>
  The members of a \<^verbatim>\<open>TMC2209\<close> object that the modelled functions use, and the log
  of the HAL calls made so far. A member's trailing underscore is written as a prime
  (\<^verbatim>\<open>driver_current_\<close> is \<open>driver_current'\<close>), since a name cannot end in an
  underscore here. \<open>serial_address'\<close> is the value of the
  \<^verbatim>\<open>SerialAddress\<close> enumerator; the five registers are the \<^verbatim>\<open>bytes\<close> of the
  cached unions.
\<close>

record TMC2209 =
  serial_address' :: uint8_t
  global_config' :: uint32_t
  chopper_config' :: uint32_t
  pwm_config' :: uint32_t
  driver_current' :: uint32_t
  cool_config' :: uint32_t
  cool_step_enabled' :: bool
  hal_calls :: "hal_call list"

definition log_call :: "hal_call \<Rightarrow> TMC2209 \<Rightarrow> TMC2209" where
  "log_call c s = s\<lparr>hal_calls := hal_calls s @ [c]\<rparr>"

text \<open>\<^verbatim>\<open>__HAL_UART_GET_FLAG(huart_, UART_FLAG_RXNE)\<close>\<close>

definition HAL_UART_GET_FLAG_RXNE :: "hal_env \<Rightarrow> TMC2209 \<Rightarrow> bool \<times> TMC2209" where
  "HAL_UART_GET_FLAG_RXNE env s =
     (rxne_flag env (length (hal_calls s)), log_call UART_GET_FLAG_RXNE s)"

text \<open>\<^verbatim>\<open>HAL_UART_Transmit(huart_, &byte, 1, timeout)\<close>\<close>

definition HAL_UART_Transmit ::
  "hal_env \<Rightarrow> uint8_t \<Rightarrow> nat \<Rightarrow> TMC2209 \<Rightarrow> HAL_StatusTypeDef \<times> TMC2209" where
  "HAL_UART_Transmit env byte timeout s =
     (transmit_status env (length (hal_calls s)), log_call (UART_Transmit byte timeout) s)"

text \<open>\<^verbatim>\<open>HAL_UART_Receive(huart_, buf, size, timeout)\<close>: the status, the buffer after
  the call, and the new state.\<close>

definition HAL_UART_Receive ::
  "hal_env \<Rightarrow> nat \<Rightarrow> nat \<Rightarrow> TMC2209 \<Rightarrow> HAL_StatusTypeDef \<times> (nat \<Rightarrow> uint8_t) \<times> TMC2209" where
  "HAL_UART_Receive env count timeout s =
     (receive_status env (length (hal_calls s)),
      receive_buffer env (length (hal_calls s)),
      log_call (UART_Receive count timeout) s)"

text \<open>The bytes handed to \<^verbatim>\<open>HAL_UART_Transmit\<close> in a log, in order.\<close>

fun transmitted_bytes :: "hal_call list \<Rightarrow> uint8_t list" where
  "transmitted_bytes [] = []"
| "transmitted_bytes (UART_Transmit byte timeout # calls) = byte # transmitted_bytes calls"
| "transmitted_bytes (call # calls) = transmitted_bytes calls"

section \<open>The half-duplex transaction engine\<close>

subsection \<open>\<^verbatim>\<open>TMC2209::sendDatagramUnidirectional\<close>\<close>

text \<open>
  \<^verbatim>\<open>for (uint8_t i = 0; i < datagram_size; ++i)\<close>: each byte is transmitted with a
  timeout of 1000; a status other than \<^verbatim>\<open>HAL_OK\<close> switches the green LED on, and the
  loop goes on.
\<close>

function sendDatagramUnidirectional_loop ::
  "hal_env \<Rightarrow> nat \<Rightarrow> 'a::len word \<Rightarrow> uint8_t \<Rightarrow> TMC2209 \<Rightarrow> TMC2209" where
  "sendDatagramUnidirectional_loop env i datagram datagram_size s =
     (if i < unat datagram_size then
        let byte = datagram_byte datagram i;
            (status, s1) = HAL_UART_Transmit env byte 1000 s;
            s2 = (if status \<noteq> HAL_OK then log_call BSP_LED_On_LED_GREEN s1 else s1)
        in sendDatagramUnidirectional_loop env (i + 1) datagram datagram_size s2
      else s)"
  by pat_completeness auto
termination
  by (relation "measure (\<lambda>(env, i, datagram, datagram_size, s). unat datagram_size - i)") auto

declare sendDatagramUnidirectional_loop.simps [simp del]

definition sendDatagramUnidirectional ::
  "hal_env \<Rightarrow> 'a::len word \<Rightarrow> uint8_t \<Rightarrow> TMC2209 \<Rightarrow> TMC2209" where
  "sendDatagramUnidirectional env datagram datagram_size s =
     sendDatagramUnidirectional_loop env 0 datagram datagram_size s"

subsection \<open>\<^verbatim>\<open>TMC2209::sendDatagramBidirectional\<close>\<close>

text \<open>
  \<^verbatim>\<open>while (__HAL_UART_GET_FLAG(huart_, UART_FLAG_RXNE))\<close> with a one-byte receive of
  timeout 0 in its body. Nothing in the code bounds the number of rounds, so the loop is a
  partial function: \<open>None\<close> when the flag never reads clear.
\<close>

partial_function (option) clear_receive_buffer :: "hal_env \<Rightarrow> TMC2209 \<Rightarrow> TMC2209 option" where
  "clear_receive_buffer env s =
     (if fst (HAL_UART_GET_FLAG_RXNE env s)
      then clear_receive_buffer env
             (snd (snd (HAL_UART_Receive env 1 0 (snd (HAL_UART_GET_FLAG_RXNE env s)))))
      else Some (snd (HAL_UART_GET_FLAG_RXNE env s)))"

declare clear_receive_buffer.simps [code]

text \<open>
  The transmit loop, with a timeout of 100 per byte. A status other than \<^verbatim>\<open>HAL_OK\<close>
  sets pin 5 of port A and returns from \<^verbatim>\<open>sendDatagramBidirectional\<close>; the result says
  whether the loop ran to its end (\<open>True\<close>) or returned early (\<open>False\<close>).
\<close>

function sendDatagramBidirectional_loop ::
  "hal_env \<Rightarrow> nat \<Rightarrow> 'a::len word \<Rightarrow> uint8_t \<Rightarrow> TMC2209 \<Rightarrow> bool \<times> TMC2209" where
  "sendDatagramBidirectional_loop env i datagram datagram_size s =
     (if i < unat datagram_size then
        let byte = datagram_byte datagram i;
            (status, s1) = HAL_UART_Transmit env byte 100 s
        in if status \<noteq> HAL_OK then (False, log_call GPIO_WritePin_GPIOA_PIN_5_SET s1)
           else sendDatagramBidirectional_loop env (i + 1) datagram datagram_size s1
      else (True, s))"
  by pat_completeness auto
termination
  by (relation "measure (\<lambda>(env, i, datagram, datagram_size, s). unat datagram_size - i)") auto

declare sendDatagramBidirectional_loop.simps [simp del]

text \<open>
  After a complete transmission the function receives \<^verbatim>\<open>datagram_size\<close> echoed bytes
  within \<^verbatim>\<open>ECHO_DELAY_MAX_MICROSECONDS / 1000\<close>; it returns nothing, whatever the status
  of that receive.
\<close>

definition sendDatagramBidirectional ::
  "hal_env \<Rightarrow> header \<Rightarrow> 'a::len word \<Rightarrow> uint8_t \<Rightarrow> TMC2209 \<Rightarrow> TMC2209 option" where
  "sendDatagramBidirectional env H datagram datagram_size s = do {
     s1 \<leftarrow> clear_receive_buffer env s;
     let (completed, s2) = sendDatagramBidirectional_loop env 0 datagram datagram_size s1;
     if \<not> completed then Some s2
     else let (reply_status, echo_buf, s3) =
                HAL_UART_Receive env (unat datagram_size)
                  (unat (ECHO_DELAY_MAX_MICROSECONDS H div 1000)) s2
          in Some s3
   }"

subsection \<open>\<^verbatim>\<open>TMC2209::write\<close> and \<^verbatim>\<open>TMC2209::read\<close>\<close>

definition write_datagram :: "header \<Rightarrow> uint8_t \<Rightarrow> uint8_t \<Rightarrow> uint32_t \<Rightarrow> uint64_t" where
  "write_datagram H serial_address register_address data =
     (let d0 = 0;
          d1 = set_field (WriteReadReplyDatagram_sync H) (SYNC H) d0;
          d2 = set_field (WriteReadReplyDatagram_serial_address H) serial_address d1;
          d3 = set_field (WriteReadReplyDatagram_register_address H) register_address d2;
          d4 = set_field (WriteReadReplyDatagram_rw H) (RW_WRITE H) d3;
          d5 = set_field (WriteReadReplyDatagram_data H) (reverseData data) d4
      in set_field (WriteReadReplyDatagram_crc H)
           (calculateCrc d5 (WRITE_READ_REPLY_DATAGRAM_SIZE H)) d5)"

text \<open>\<^verbatim>\<open>TMC2209::write\<close>; \<open>write\<close> alone is a keyword of Isabelle.\<close>

definition write_TMC2209 :: "hal_env \<Rightarrow> header \<Rightarrow> uint8_t \<Rightarrow> uint32_t \<Rightarrow> TMC2209 \<Rightarrow> TMC2209" where
  "write_TMC2209 env H register_address data s =
     sendDatagramUnidirectional env
       (write_datagram H (serial_address' s) register_address data)
       (WRITE_READ_REPLY_DATAGRAM_SIZE H) s"

definition read_request_datagram :: "header \<Rightarrow> uint8_t \<Rightarrow> uint8_t \<Rightarrow> uint32_t" where
  "read_request_datagram H serial_address register_address =
     (let d0 = 0;
          d1 = set_field (ReadRequestDatagram_sync H) (SYNC H) d0;
          d2 = set_field (ReadRequestDatagram_serial_address H) serial_address d1;
          d3 = set_field (ReadRequestDatagram_register_address H) register_address d2;
          d4 = set_field (ReadRequestDatagram_rw H) (RW_READ H) d3
      in set_field (ReadRequestDatagram_crc H)
           (calculateCrc d4 (READ_REQUEST_DATAGRAM_SIZE H)) d4)"

text \<open>
  The loop that puts the received bytes together,
  \<^verbatim>\<open>read_reply_datagram.bytes |= (byte << (byte_count++ * BITS_PER_BYTE))\<close> with a
  \<^verbatim>\<open>uint64_t byte\<close>; \<^verbatim>\<open>byte_count\<close> equals \<open>i\<close> in every round.
\<close>

function read_reply_loop :: "header \<Rightarrow> nat \<Rightarrow> (nat \<Rightarrow> uint8_t) \<Rightarrow> uint64_t \<Rightarrow> uint64_t" where
  "read_reply_loop H i reply_buf bytes =
     (if i < unat (WRITE_READ_REPLY_DATAGRAM_SIZE H) then
        read_reply_loop H (i + 1) reply_buf
          (bytes OR push_bit (i * BITS_PER_BYTE) (ucast (reply_buf i)))
      else bytes)"
  by pat_completeness auto
termination
  by (relation "measure (\<lambda>(H, i, reply_buf, bytes). unat (WRITE_READ_REPLY_DATAGRAM_SIZE H) - i)")
    auto

declare read_reply_loop.simps [simp del]

text \<open>
  \<^verbatim>\<open>read\<close> calls \<^verbatim>\<open>sendDatagramBidirectional\<close>, which returns nothing, and then
  receives \<^verbatim>\<open>WRITE_READ_REPLY_DATAGRAM_SIZE\<close> bytes within
  \<^verbatim>\<open>REPLY_DELAY_MAX_MICROSECONDS / 1000\<close>. It returns 0 when the status of that receive
  is not \<^verbatim>\<open>HAL_OK\<close>, and the byte-reversed \<^verbatim>\<open>data\<close> field of the received bytes
  otherwise. The received CRC is not looked at.
\<close>

definition read :: "hal_env \<Rightarrow> header \<Rightarrow> uint8_t \<Rightarrow> TMC2209 \<Rightarrow> (uint32_t \<times> TMC2209) option" where
  "read env H register_address s = do {
     s1 \<leftarrow> sendDatagramBidirectional env H
             (read_request_datagram H (serial_address' s) register_address)
             (READ_REQUEST_DATAGRAM_SIZE H) s;
     let (reply_status, reply_buf, s2) =
           HAL_UART_Receive env (unat (WRITE_READ_REPLY_DATAGRAM_SIZE H))
             (unat (REPLY_DELAY_MAX_MICROSECONDS H div 1000)) s1;
     if reply_status \<noteq> HAL_OK then Some (0, s2)
     else let read_reply_datagram = read_reply_loop H 0 reply_buf 0
          in Some (reverseData (ucast (get_field (WriteReadReplyDatagram_data H)
                                         read_reply_datagram)), s2)
   }"

section \<open>The parameter mapping layer\<close>

text \<open>\<^verbatim>\<open>TMC2209::constrain_\<close>, on \<^verbatim>\<open>uint32_t\<close>.\<close>

definition constrain' :: "uint32_t \<Rightarrow> uint32_t \<Rightarrow> uint32_t \<Rightarrow> uint32_t" where
  "constrain' v low high = (if v < low then low else if v > high then high else v)"

text \<open>
  The template \<^verbatim>\<open>map\<close> at \<^verbatim>\<open>T = uint8_t\<close>, \<^verbatim>\<open>U = long\<close>, the only
  instance in the file. The arithmetic is done in \<^verbatim>\<open>long\<close>; no intermediate value
  exceeds \<open>255 * 255 + 255\<close> in magnitude, so nothing overflows and \<open>int\<close> is exact. The
  division truncates towards zero (\<open>sdiv\<close>); a zero divisor is a fault (\<open>None\<close>). The
  result is cut to the range of \<^verbatim>\<open>uint8_t\<close>.
\<close>

definition map_uint8 ::
  "uint8_t \<Rightarrow> uint8_t \<Rightarrow> uint8_t \<Rightarrow> uint8_t \<Rightarrow> uint8_t \<Rightarrow> uint8_t option" where
  "map_uint8 x in_min in_max out_min out_max =
     (if uint in_max - uint in_min = 0 then None
      else
        let result =
              ((uint x - uint in_min) * (uint out_max - uint out_min)) sdiv
                (uint in_max - uint in_min) + uint out_min
        in if result < 0 then Some 0
           else if result > 255 then Some 255
           else Some (word_of_int result))"

definition percentToCurrentSetting :: "header \<Rightarrow> uint8_t \<Rightarrow> uint8_t option" where
  "percentToCurrentSetting H percent =
     (let constrained_percent =
            ucast (constrain' (ucast percent) (ucast PERCENT_MIN) (ucast PERCENT_MAX))
      in map_uint8 constrained_percent PERCENT_MIN PERCENT_MAX
           (CURRENT_SETTING_MIN H) (CURRENT_SETTING_MAX H))"

definition currentSettingToPercent :: "header \<Rightarrow> uint8_t \<Rightarrow> uint8_t option" where
  "currentSettingToPercent H current_setting =
     map_uint8 current_setting (CURRENT_SETTING_MIN H) (CURRENT_SETTING_MAX H)
       PERCENT_MIN PERCENT_MAX"

definition percentToHoldDelaySetting :: "header \<Rightarrow> uint8_t \<Rightarrow> uint8_t option" where
  "percentToHoldDelaySetting H percent =
     (let constrained_percent =
            ucast (constrain' (ucast percent) (ucast PERCENT_MIN) (ucast PERCENT_MAX))
      in map_uint8 constrained_percent PERCENT_MIN PERCENT_MAX
           (HOLD_DELAY_MIN H) (HOLD_DELAY_MAX H))"

definition holdDelaySettingToPercent :: "header \<Rightarrow> uint8_t \<Rightarrow> uint8_t option" where
  "holdDelaySettingToPercent H hold_delay_setting =
     map_uint8 hold_delay_setting (HOLD_DELAY_MIN H) (HOLD_DELAY_MAX H)
       PERCENT_MIN PERCENT_MAX"

section \<open>The register model and its setters\<close>

subsection \<open>Writing and reading the cached registers\<close>

text \<open>
  \<^verbatim>\<open>writeStoredDriverCurrent\<close> writes the current register, then sets
  \<^verbatim>\<open>cool_config_.seimin\<close> from \<^verbatim>\<open>driver_current_.irun\<close>, then writes the
  cool-step register if \<^verbatim>\<open>cool_step_enabled_\<close>.
\<close>

definition writeStoredDriverCurrent :: "hal_env \<Rightarrow> header \<Rightarrow> TMC2209 \<Rightarrow> TMC2209" where
  "writeStoredDriverCurrent env H s =
     (let s1 = write_TMC2209 env H (ADDRESS_IHOLD_IRUN H) (driver_current' s) s;
          s2 = (if unat (SEIMIN_UPPER_CURRENT_LIMIT H) \<le>
                     unat (get_field (DriverCurrent_irun H) (driver_current' s1))
                then s1\<lparr>cool_config' :=
                          set_field (CoolConfig_seimin H) (SEIMIN_UPPER_SETTING H) (cool_config' s1)\<rparr>
                else s1\<lparr>cool_config' :=
                          set_field (CoolConfig_seimin H) (SEIMIN_LOWER_SETTING H) (cool_config' s1)\<rparr>)
      in if cool_step_enabled' s2
         then write_TMC2209 env H (ADDRESS_COOLCONF H) (cool_config' s2) s2
         else s2)"

definition writeStoredChopperConfig :: "hal_env \<Rightarrow> header \<Rightarrow> TMC2209 \<Rightarrow> TMC2209" where
  "writeStoredChopperConfig env H s =
     write_TMC2209 env H (ADDRESS_CHOPCONF H) (chopper_config' s) s"

definition readGlobalConfigBytes ::
  "hal_env \<Rightarrow> header \<Rightarrow> TMC2209 \<Rightarrow> (uint32_t \<times> TMC2209) option" where
  "readGlobalConfigBytes env H s = read env H (ADDRESS_GCONF H) s"

definition readChopperConfigBytes ::
  "hal_env \<Rightarrow> header \<Rightarrow> TMC2209 \<Rightarrow> (uint32_t \<times> TMC2209) option" where
  "readChopperConfigBytes env H s = read env H (ADDRESS_CHOPCONF H) s"

definition readPwmConfigBytes ::
  "hal_env \<Rightarrow> header \<Rightarrow> TMC2209 \<Rightarrow> (uint32_t \<times> TMC2209) option" where
  "readPwmConfigBytes env H s = read env H (ADDRESS_PWMCONF H) s"

definition readAndStoreRegisters :: "hal_env \<Rightarrow> header \<Rightarrow> TMC2209 \<Rightarrow> TMC2209 option" where
  "readAndStoreRegisters env H s = do {
     (g, s1) \<leftarrow> readGlobalConfigBytes env H s;
     (c, s2) \<leftarrow> readChopperConfigBytes env H (s1\<lparr>global_config' := g\<rparr>);
     (p, s3) \<leftarrow> readPwmConfigBytes env H (s2\<lparr>chopper_config' := c\<rparr>);
     Some (s3\<lparr>pwm_config' := p\<rparr>)
   }"

subsection \<open>Current setters\<close>

definition setRunCurrent :: "hal_env \<Rightarrow> header \<Rightarrow> uint8_t \<Rightarrow> TMC2209 \<Rightarrow> TMC2209 option" where
  "setRunCurrent env H percent s = do {
     run_current \<leftarrow> percentToCurrentSetting H percent;
     Some (writeStoredDriverCurrent env H
       (s\<lparr>driver_current' := set_field (DriverCurrent_irun H) run_current (driver_current' s)\<rparr>))
   }"

definition setHoldCurrent :: "hal_env \<Rightarrow> header \<Rightarrow> uint8_t \<Rightarrow> TMC2209 \<Rightarrow> TMC2209 option" where
  "setHoldCurrent env H percent s = do {
     hold_current \<leftarrow> percentToCurrentSetting H percent;
     Some (writeStoredDriverCurrent env H
       (s\<lparr>driver_current' := set_field (DriverCurrent_ihold H) hold_current (driver_current' s)\<rparr>))
   }"

definition setHoldDelay :: "hal_env \<Rightarrow> header \<Rightarrow> uint8_t \<Rightarrow> TMC2209 \<Rightarrow> TMC2209 option" where
  "setHoldDelay env H percent s = do {
     hold_delay \<leftarrow> percentToHoldDelaySetting H percent;
     Some (writeStoredDriverCurrent env H
       (s\<lparr>driver_current' :=
            set_field (DriverCurrent_iholddelay H) hold_delay (driver_current' s)\<rparr>))
   }"

definition setAllCurrentValues ::
  "hal_env \<Rightarrow> header \<Rightarrow> uint8_t \<Rightarrow> uint8_t \<Rightarrow> uint8_t \<Rightarrow> TMC2209 \<Rightarrow> TMC2209 option" where
  "setAllCurrentValues env H run_current_percent hold_current_percent hold_delay_percent s = do {
     run_current \<leftarrow> percentToCurrentSetting H run_current_percent;
     hold_current \<leftarrow> percentToCurrentSetting H hold_current_percent;
     hold_delay \<leftarrow> percentToHoldDelaySetting H hold_delay_percent;
     Some (writeStoredDriverCurrent env H
       (s\<lparr>driver_current' :=
            set_field (DriverCurrent_iholddelay H) hold_delay
              (set_field (DriverCurrent_ihold H) hold_current
                (set_field (DriverCurrent_irun H) run_current (driver_current' s)))\<rparr>))
   }"

definition minimizeMotorCurrent :: "hal_env \<Rightarrow> header \<Rightarrow> TMC2209 \<Rightarrow> TMC2209" where
  "minimizeMotorCurrent env H s =
     writeStoredDriverCurrent env H
       (s\<lparr>driver_current' :=
            set_field (DriverCurrent_ihold H) (CURRENT_SETTING_MIN H)
              (set_field (DriverCurrent_irun H) (CURRENT_SETTING_MIN H) (driver_current' s))\<rparr>)"

subsection \<open>Cool-step\<close>

definition enableCoolStep ::
  "hal_env \<Rightarrow> header \<Rightarrow> uint8_t \<Rightarrow> uint8_t \<Rightarrow> TMC2209 \<Rightarrow> TMC2209" where
  "enableCoolStep env H lower_threshold upper_threshold s =
     (let lower_threshold = (ucast (constrain' (ucast lower_threshold)
                               (ucast (SEMIN_MIN H)) (ucast (SEMIN_MAX H))) :: uint8_t);
          s1 = s\<lparr>cool_config' :=
                   set_field (CoolConfig_semin H) lower_threshold (cool_config' s)\<rparr>;
          upper_threshold = (ucast (constrain' (ucast upper_threshold)
                               (ucast (SEMAX_MIN H)) (ucast (SEMAX_MAX H))) :: uint8_t);
          s2 = s1\<lparr>cool_config' :=
                    set_field (CoolConfig_semax H) upper_threshold (cool_config' s1)\<rparr>;
          s3 = write_TMC2209 env H (ADDRESS_COOLCONF H) (cool_config' s2) s2
      in s3\<lparr>cool_step_enabled' := True\<rparr>)"

definition disableCoolStep :: "hal_env \<Rightarrow> header \<Rightarrow> TMC2209 \<Rightarrow> TMC2209" where
  "disableCoolStep env H s =
     (let s1 = s\<lparr>cool_config' :=
                   set_field (CoolConfig_semin H) (SEMIN_OFF H) (cool_config' s)\<rparr>;
          s2 = write_TMC2209 env H (ADDRESS_COOLCONF H) (cool_config' s1) s1
      in s2\<lparr>cool_step_enabled' := False\<rparr>)"

subsection \<open>Microsteps per step\<close>

text \<open>
  \<^verbatim>\<open>switch (exponent)\<close> with the cases 0 to 7 and \<^verbatim>\<open>case 8: default:\<close>.
\<close>

definition setMicrostepsPerStepPowerOfTwo ::
  "hal_env \<Rightarrow> header \<Rightarrow> uint8_t \<Rightarrow> TMC2209 \<Rightarrow> TMC2209" where
  "setMicrostepsPerStepPowerOfTwo env H exponent s =
     (let mres =
            (if exponent = 0 then MRES_001 H
             else if exponent = 1 then MRES_002 H
             else if exponent = 2 then MRES_004 H
             else if exponent = 3 then MRES_008 H
             else if exponent = 4 then MRES_016 H
             else if exponent = 5 then MRES_032 H
             else if exponent = 6 then MRES_064 H
             else if exponent = 7 then MRES_128 H
             else MRES_256 H)
      in writeStoredChopperConfig env H
           (s\<lparr>chopper_config' := set_field (ChopperConfig_mres H) mres (chopper_config' s)\<rparr>))"

text \<open>
  \<^verbatim>\<open>while (microsteps_per_step_shifted > 0)\<close>, which shifts right by one and counts
  the rounds in the \<^verbatim>\<open>uint16_t exponent\<close>.
\<close>

function setMicrostepsPerStep_loop :: "uint16_t \<Rightarrow> uint16_t \<Rightarrow> uint16_t" where
  "setMicrostepsPerStep_loop microsteps_per_step_shifted exponent =
     (if microsteps_per_step_shifted > 0
      then setMicrostepsPerStep_loop (drop_bit 1 microsteps_per_step_shifted) (exponent + 1)
      else exponent)"
  by pat_completeness auto
termination
proof (relation "measure (\<lambda>(shifted, exponent). unat shifted)")
  show "wf (measure (\<lambda>(shifted, exponent). unat shifted))" by simp
next
  fix shifted exponent :: uint16_t
  assume "0 < shifted"
  then have "0 < unat shifted" by (simp add: word_less_nat_alt)
  then have "unat shifted div 2 < unat shifted" by simp
  then have "unat (drop_bit 1 shifted) < unat shifted"
    by (simp add: drop_bit_eq_div unat_div)
  then show "((drop_bit 1 shifted, exponent + 1), (shifted, exponent))
      \<in> measure (\<lambda>(shifted, exponent). unat shifted)"
    by simp
qed

declare setMicrostepsPerStep_loop.simps [simp del]

text \<open>
  The exponent that \<^verbatim>\<open>setMicrostepsPerStep\<close> computes. The first assignment to
  \<^verbatim>\<open>microsteps_per_step_shifted\<close> takes the constrained request; the second, from the
  unconstrained \<^verbatim>\<open>microsteps_per_step\<close>, replaces it. (The parameter is
  \<open>microsteps_per_step_arg\<close> here; the plain name is a field of \<open>Settings\<close>.)
\<close>

definition setMicrostepsPerStep_exponent :: "uint16_t \<Rightarrow> uint16_t" where
  "setMicrostepsPerStep_exponent microsteps_per_step_arg =
     (let microsteps_per_step_shifted =
            (ucast (constrain' (ucast microsteps_per_step_arg)
                      MICROSTEPS_PER_STEP_MIN MICROSTEPS_PER_STEP_MAX) :: uint16_t);
          microsteps_per_step_shifted = drop_bit 1 microsteps_per_step_arg
      in setMicrostepsPerStep_loop microsteps_per_step_shifted 0)"

definition setMicrostepsPerStep ::
  "hal_env \<Rightarrow> header \<Rightarrow> uint16_t \<Rightarrow> TMC2209 \<Rightarrow> TMC2209" where
  "setMicrostepsPerStep env H microsteps_per_step_arg s =
     setMicrostepsPerStepPowerOfTwo env H
       (ucast (setMicrostepsPerStep_exponent microsteps_per_step_arg)) s"

text \<open>
  Written from the specification, to be compared with \<open>setMicrostepsPerStep_exponent\<close>:
  the request is "clamped to the nearest valid power-of-two" before it is mapped to its
  exponent. The valid values are \<open>2 ^ k\<close> for \<open>k\<close> from 0 to 8; of two valid values at the
  same distance the smaller one is taken.
\<close>

definition spec_microsteps_exponent :: "nat \<Rightarrow> nat" where
  "spec_microsteps_exponent request =
     arg_min_list (\<lambda>k. \<bar>int request - 2 ^ k\<bar>) [0..<9]"

definition getMicrostepsPerStep :: "header \<Rightarrow> TMC2209 \<Rightarrow> uint16_t" where
  "getMicrostepsPerStep H s =
     (let mres = unat (get_field (ChopperConfig_mres H) (chopper_config' s));
          microsteps_per_step_exponent =
            (if mres = unat (MRES_001 H) then 0
             else if mres = unat (MRES_002 H) then 1
             else if mres = unat (MRES_004 H) then 2
             else if mres = unat (MRES_008 H) then 3
             else if mres = unat (MRES_016 H) then 4
             else if mres = unat (MRES_032 H) then 5
             else if mres = unat (MRES_064 H) then 6
             else if mres = unat (MRES_128 H) then 7
             else (8 :: nat))
      in push_bit microsteps_per_step_exponent 1)"

subsection \<open>Reading back: \<^verbatim>\<open>getVersion\<close>, \<^verbatim>\<open>isCommunicating\<close>, \<^verbatim>\<open>getSettings\<close>\<close>

definition getVersion :: "hal_env \<Rightarrow> header \<Rightarrow> TMC2209 \<Rightarrow> (uint8_t \<times> TMC2209) option" where
  "getVersion env H s = do {
     (input, s1) \<leftarrow> read env H (ADDRESS_IOIN H) s;
     Some (ucast (get_field (Input_version H) input), s1)
   }"

definition isCommunicating :: "hal_env \<Rightarrow> header \<Rightarrow> TMC2209 \<Rightarrow> (bool \<times> TMC2209) option" where
  "isCommunicating env H s = do {
     (version, s1) \<leftarrow> getVersion env H s;
     Some (version = VERSION H, s1)
   }"

text \<open>
  \<^verbatim>\<open>getSettings\<close> assigns every field of \<^verbatim>\<open>settings\<close> in either branch. In the
  branch of a chip that does not answer, \<^verbatim>\<open>standstill_mode\<close> is taken from the cached
  \<^verbatim>\<open>pwm_config_.freewheel\<close>, as in the other branch; the other fields are
  \<^verbatim>\<open>false\<close> or 0.
\<close>

definition getSettings :: "hal_env \<Rightarrow> header \<Rightarrow> TMC2209 \<Rightarrow> (Settings \<times> TMC2209) option" where
  "getSettings env H s = do {
     (communicating, s1) \<leftarrow> isCommunicating env H s;
     if communicating then do {
       s2 \<leftarrow> readAndStoreRegisters env H s1;
       irun_pc \<leftarrow>
         currentSettingToPercent H (ucast (get_field (DriverCurrent_irun H) (driver_current' s2)));
       ihold_pc \<leftarrow>
         currentSettingToPercent H (ucast (get_field (DriverCurrent_ihold H) (driver_current' s2)));
       iholddelay_pc \<leftarrow>
         holdDelaySettingToPercent H
           (ucast (get_field (DriverCurrent_iholddelay H) (driver_current' s2)));
       Some (\<lparr>is_communicating = True,
              is_setup = (get_field (GlobalConfig_pdn_disable H) (global_config' s2) \<noteq> 0),
              software_enabled =
                (unat (TOFF_DISABLE H) < unat (get_field (ChopperConfig_toff H) (chopper_config' s2))),
              microsteps_per_step = getMicrostepsPerStep H s2,
              inverse_motor_direction_enabled =
                (get_field (GlobalConfig_shaft H) (global_config' s2) \<noteq> 0),
              stealth_chop_enabled =
                (get_field (GlobalConfig_enable_spread_cycle H) (global_config' s2) = 0),
              standstill_mode = ucast (get_field (PwmConfig_freewheel H) (pwm_config' s2)),
              irun_percent = irun_pc,
              irun_register_value = ucast (get_field (DriverCurrent_irun H) (driver_current' s2)),
              ihold_percent = ihold_pc,
              ihold_register_value = ucast (get_field (DriverCurrent_ihold H) (driver_current' s2)),
              iholddelay_percent = iholddelay_pc,
              iholddelay_register_value =
                ucast (get_field (DriverCurrent_iholddelay H) (driver_current' s2)),
              automatic_current_scaling_enabled =
                (get_field (PwmConfig_pwm_autoscale H) (pwm_config' s2) \<noteq> 0),
              automatic_gradient_adaptation_enabled =
                (get_field (PwmConfig_pwm_autograd H) (pwm_config' s2) \<noteq> 0),
              pwm_offset = ucast (get_field (PwmConfig_pwm_offset H) (pwm_config' s2)),
              pwm_gradient = ucast (get_field (PwmConfig_pwm_grad H) (pwm_config' s2)),
              cool_step_enabled = cool_step_enabled' s2,
              analog_current_scaling_enabled =
                (get_field (GlobalConfig_i_scale_analog H) (global_config' s2) \<noteq> 0),
              internal_sense_resistors_enabled =
                (get_field (GlobalConfig_internal_rsense H) (global_config' s2) \<noteq> 0)\<rparr>, s2)
     }
     else
       Some (\<lparr>is_communicating = False,
              is_setup = False,
              software_enabled = False,
              microsteps_per_step = 0,
              inverse_motor_direction_enabled = False,
              stealth_chop_enabled = False,
              standstill_mode = ucast (get_field (PwmConfig_freewheel H) (pwm_config' s1)),
              irun_percent = 0,
              irun_register_value = 0,
              ihold_percent = 0,
              ihold_register_value = 0,
              iholddelay_percent = 0,
              iholddelay_register_value = 0,
              automatic_current_scaling_enabled = False,
              automatic_gradient_adaptation_enabled = False,
              pwm_offset = 0,
              pwm_gradient = 0,
              cool_step_enabled = False,
              analog_current_scaling_enabled = False,
              internal_sense_resistors_enabled = False\<rparr>, s1)
   }"

section \<open>Vocabulary of the properties\<close>

text \<open>Every bit outside the bit-field \<open>f\<close> is the same in \<open>w'\<close> as in \<open>w\<close>.\<close>

definition only_field_changed :: "bitfield \<Rightarrow> 'a::len word \<Rightarrow> 'a word \<Rightarrow> bool" where
  "only_field_changed f w w' \<longleftrightarrow>
     (\<forall>m. \<not> (bf_shift f \<le> m \<and> m < bf_shift f + bf_width f) \<longrightarrow> bit w' m = bit w m)"

text \<open>
  The receive flag reads clear at some round of the loop in
  \<^verbatim>\<open>sendDatagramBidirectional\<close> that starts in \<open>s\<close>: every round makes two HAL
  calls, the flag test and the one-byte receive.
\<close>

definition receive_flag_clears :: "hal_env \<Rightarrow> TMC2209 \<Rightarrow> bool" where
  "receive_flag_clears env s \<longleftrightarrow> (\<exists>k. \<not> rxne_flag env (length (hal_calls s) + 2 * k))"

text \<open>What \<^verbatim>\<open>getSettings\<close> reports for a chip that does not answer, by its code.\<close>

definition not_communicating_settings :: "uint8_t \<Rightarrow> Settings" where
  "not_communicating_settings freewheel =
     \<lparr>is_communicating = False,
      is_setup = False,
      software_enabled = False,
      microsteps_per_step = 0,
      inverse_motor_direction_enabled = False,
      stealth_chop_enabled = False,
      standstill_mode = freewheel,
      irun_percent = 0,
      irun_register_value = 0,
      ihold_percent = 0,
      ihold_register_value = 0,
      iholddelay_percent = 0,
      iholddelay_register_value = 0,
      automatic_current_scaling_enabled = False,
      automatic_gradient_adaptation_enabled = False,
      pwm_offset = 0,
      pwm_gradient = 0,
      cool_step_enabled = False,
      analog_current_scaling_enabled = False,
      internal_sense_resistors_enabled = False\<rparr>"

text \<open>
  The resolution constant for the largest power of two that is not above the request, with
  requests of 256 and more taken as 256 and request 0 taken as 1.
\<close>

definition mres_for_request :: "header \<Rightarrow> uint16_t \<Rightarrow> uint8_t" where
  "mres_for_request H request =
     (if request < 2 then MRES_001 H
      else if request < 4 then MRES_002 H
      else if request < 8 then MRES_004 H
      else if request < 16 then MRES_008 H
      else if request < 32 then MRES_016 H
      else if request < 64 then MRES_032 H
      else if request < 128 then MRES_064 H
      else if request < 256 then MRES_128 H
      else MRES_256 H)"

text \<open>The bytes of the write datagram for a register, as the driver \<open>s\<close> sends them.\<close>

definition write_bytes :: "header \<Rightarrow> TMC2209 \<Rightarrow> uint8_t \<Rightarrow> uint32_t \<Rightarrow> uint8_t list" where
  "write_bytes H s register_address data =
     datagram_bytes (write_datagram H (serial_address' s) register_address data)
       (unat (WRITE_READ_REPLY_DATAGRAM_SIZE H))"

text \<open>The setting that belongs in \<^verbatim>\<open>seimin\<close> for the cached \<^verbatim>\<open>irun\<close> of \<open>s\<close>.\<close>

definition seimin_setting :: "header \<Rightarrow> TMC2209 \<Rightarrow> uint8_t" where
  "seimin_setting H s =
     (if unat (SEIMIN_UPPER_CURRENT_LIMIT H) \<le>
           unat (get_field (DriverCurrent_irun H) (driver_current' s))
      then SEIMIN_UPPER_SETTING H else SEIMIN_LOWER_SETTING H)"

text \<open>
  What holds of the state \<open>s'\<close> after a driver-current write started in \<open>s\<close>: the cached
  \<^verbatim>\<open>seimin\<close> is the setting for the cached \<^verbatim>\<open>irun\<close> (so, when the two settings
  differ as values of the field, it is the upper one exactly when \<^verbatim>\<open>irun\<close> is at least
  the limit); the cool-step flag is as
  before; and the bytes transmitted since \<open>s\<close> are the write datagram of the current register,
  followed by the write datagram of the cool-step register when the flag is set and by
  nothing when it is not.
\<close>

definition stored_driver_current_written :: "header \<Rightarrow> TMC2209 \<Rightarrow> TMC2209 \<Rightarrow> bool" where
  "stored_driver_current_written H s s' \<longleftrightarrow>
     get_field (CoolConfig_seimin H) (cool_config' s') =
       take_bit (bf_width (CoolConfig_seimin H)) (ucast (seimin_setting H s')) \<and>
     (take_bit (bf_width (CoolConfig_seimin H)) (ucast (SEIMIN_UPPER_SETTING H) :: uint32_t) \<noteq>
        take_bit (bf_width (CoolConfig_seimin H)) (ucast (SEIMIN_LOWER_SETTING H)) \<longrightarrow>
      (get_field (CoolConfig_seimin H) (cool_config' s') =
         take_bit (bf_width (CoolConfig_seimin H)) (ucast (SEIMIN_UPPER_SETTING H)) \<longleftrightarrow>
       unat (SEIMIN_UPPER_CURRENT_LIMIT H) \<le>
         unat (get_field (DriverCurrent_irun H) (driver_current' s')))) \<and>
     cool_step_enabled' s' = cool_step_enabled' s \<and>
     transmitted_bytes (hal_calls s') =
       transmitted_bytes (hal_calls s) @
       write_bytes H s (ADDRESS_IHOLD_IRUN H) (driver_current' s') @
       (if cool_step_enabled' s
        then write_bytes H s (ADDRESS_COOLCONF H) (cool_config' s')
        else [])"

section \<open>A concrete header, driver and environments\<close>

text \<open>
  Values for the header's declarations, with the register layout of the TMC2209 data sheet;
  the closed examples below are evaluated at it.
\<close>

definition example_header :: header where
  "example_header = \<lparr>
     SYNC = 5, RW_READ = 0, RW_WRITE = 1,
     READ_REQUEST_DATAGRAM_SIZE = 4, WRITE_READ_REPLY_DATAGRAM_SIZE = 8,
     ECHO_DELAY_MAX_MICROSECONDS = 4000, REPLY_DELAY_MAX_MICROSECONDS = 10000,
     ReadRequestDatagram_sync = \<lparr>bf_shift = 0, bf_width = 4\<rparr>,
     ReadRequestDatagram_serial_address = \<lparr>bf_shift = 8, bf_width = 8\<rparr>,
     ReadRequestDatagram_register_address = \<lparr>bf_shift = 16, bf_width = 7\<rparr>,
     ReadRequestDatagram_rw = \<lparr>bf_shift = 23, bf_width = 1\<rparr>,
     ReadRequestDatagram_crc = \<lparr>bf_shift = 24, bf_width = 8\<rparr>,
     WriteReadReplyDatagram_sync = \<lparr>bf_shift = 0, bf_width = 4\<rparr>,
     WriteReadReplyDatagram_serial_address = \<lparr>bf_shift = 8, bf_width = 8\<rparr>,
     WriteReadReplyDatagram_register_address = \<lparr>bf_shift = 16, bf_width = 7\<rparr>,
     WriteReadReplyDatagram_rw = \<lparr>bf_shift = 23, bf_width = 1\<rparr>,
     WriteReadReplyDatagram_data = \<lparr>bf_shift = 24, bf_width = 32\<rparr>,
     WriteReadReplyDatagram_crc = \<lparr>bf_shift = 56, bf_width = 8\<rparr>,
     ADDRESS_GCONF = 0x00, ADDRESS_IOIN = 0x06, ADDRESS_IHOLD_IRUN = 0x10,
     ADDRESS_CHOPCONF = 0x6C, ADDRESS_COOLCONF = 0x42, ADDRESS_PWMCONF = 0x70,
     VERSION = 0x21,
     Input_version = \<lparr>bf_shift = 24, bf_width = 8\<rparr>,
     GlobalConfig_i_scale_analog = \<lparr>bf_shift = 0, bf_width = 1\<rparr>,
     GlobalConfig_internal_rsense = \<lparr>bf_shift = 1, bf_width = 1\<rparr>,
     GlobalConfig_enable_spread_cycle = \<lparr>bf_shift = 2, bf_width = 1\<rparr>,
     GlobalConfig_shaft = \<lparr>bf_shift = 3, bf_width = 1\<rparr>,
     GlobalConfig_pdn_disable = \<lparr>bf_shift = 6, bf_width = 1\<rparr>,
     ChopperConfig_toff = \<lparr>bf_shift = 0, bf_width = 4\<rparr>,
     ChopperConfig_mres = \<lparr>bf_shift = 24, bf_width = 4\<rparr>,
     TOFF_DISABLE = 0,
     MRES_256 = 0, MRES_128 = 1, MRES_064 = 2, MRES_032 = 3, MRES_016 = 4,
     MRES_008 = 5, MRES_004 = 6, MRES_002 = 7, MRES_001 = 8,
     PwmConfig_pwm_offset = \<lparr>bf_shift = 0, bf_width = 8\<rparr>,
     PwmConfig_pwm_grad = \<lparr>bf_shift = 8, bf_width = 8\<rparr>,
     PwmConfig_freewheel = \<lparr>bf_shift = 20, bf_width = 2\<rparr>,
     PwmConfig_pwm_autoscale = \<lparr>bf_shift = 18, bf_width = 1\<rparr>,
     PwmConfig_pwm_autograd = \<lparr>bf_shift = 19, bf_width = 1\<rparr>,
     DriverCurrent_ihold = \<lparr>bf_shift = 0, bf_width = 5\<rparr>,
     DriverCurrent_irun = \<lparr>bf_shift = 8, bf_width = 5\<rparr>,
     DriverCurrent_iholddelay = \<lparr>bf_shift = 16, bf_width = 4\<rparr>,
     CURRENT_SETTING_MIN = 0, CURRENT_SETTING_MAX = 31,
     HOLD_DELAY_MIN = 0, HOLD_DELAY_MAX = 15,
     CoolConfig_semin = \<lparr>bf_shift = 0, bf_width = 4\<rparr>,
     CoolConfig_semax = \<lparr>bf_shift = 8, bf_width = 4\<rparr>,
     CoolConfig_seimin = \<lparr>bf_shift = 15, bf_width = 1\<rparr>,
     SEIMIN_UPPER_CURRENT_LIMIT = 20, SEIMIN_LOWER_SETTING = 0, SEIMIN_UPPER_SETTING = 1,
     SEMIN_OFF = 0, SEMIN_MIN = 1, SEMIN_MAX = 15, SEMAX_MIN = 0, SEMAX_MAX = 15
   \<rparr>"

text \<open>A driver at serial address 0 with all cached registers 0 and an empty log.\<close>

definition example_driver :: TMC2209 where
  "example_driver = \<lparr>
     serial_address' = 0, global_config' = 0, chopper_config' = 0, pwm_config' = 0,
     driver_current' = 0, cool_config' = 0, cool_step_enabled' = False, hal_calls = []\<rparr>"

text \<open>A link on which every call succeeds, nothing is pending and every received byte is 0.\<close>

definition quiet_env :: hal_env where
  "quiet_env = \<lparr>
     rxne_flag = (\<lambda>k. False),
     transmit_status = (\<lambda>k. HAL_OK),
     receive_status = (\<lambda>k. HAL_OK),
     receive_buffer = (\<lambda>k i. 0)\<rparr>"

text \<open>A link on which every transmit fails and every receive times out.\<close>

definition dead_env :: hal_env where
  "dead_env = \<lparr>
     rxne_flag = (\<lambda>k. False),
     transmit_status = (\<lambda>k. HAL_ERROR),
     receive_status = (\<lambda>k. HAL_TIMEOUT),
     receive_buffer = (\<lambda>k i. 0)\<rparr>"

text \<open>
  A link on which every transmit fails, but every receive succeeds and delivers the bytes
  \<open>05 FF 06 21 00 00 00 00\<close>.
\<close>

definition deaf_env :: hal_env where
  "deaf_env = \<lparr>
     rxne_flag = (\<lambda>k. False),
     transmit_status = (\<lambda>k. HAL_ERROR),
     receive_status = (\<lambda>k. HAL_OK),
     receive_buffer = (\<lambda>k i. if i = 0 then 0x05 else if i = 1 then 0xFF
                             else if i = 2 then 0x06 else if i = 3 then 0x21 else 0)\<rparr>"

text \<open>
  A link on which the first byte of a datagram goes out and every later transmit fails, and
  every receive times out. (Call 0 is the test of the receive flag, call 1 the first
  transmit.)
\<close>

definition flaky_env :: hal_env where
  "flaky_env = \<lparr>
     rxne_flag = (\<lambda>k. False),
     transmit_status = (\<lambda>k. if k < 2 then HAL_OK else HAL_ERROR),
     receive_status = (\<lambda>k. HAL_TIMEOUT),
     receive_buffer = (\<lambda>k i. 0)\<rparr>"

section \<open>Properties of the bit utilities\<close>

lemma and_byte_max: "(w :: 'a::len word) AND 0xFF = take_bit 8 w"
  using take_bit_eq_mask [of 8 w] by (simp add: mask_eq_exp_minus_1)

lemma ucast_BYTE_MAX_VALUE: "(ucast BYTE_MAX_VALUE :: 'a::len word) = 0xFF"
  by (simp add: BYTE_MAX_VALUE_def)

lemma reverseData_loop_step:
  "i < 4 \<Longrightarrow> reverseData_loop i d r =
     reverseData_loop (Suc i) d (r OR push_bit (i * 8) (take_bit 8 (drop_bit ((3 - i) * 8) d)))"
  by (subst reverseData_loop.simps)
     (simp add: DATA_SIZE_def BITS_PER_BYTE_def ucast_BYTE_MAX_VALUE and_byte_max)

lemma reverseData_loop_done: "reverseData_loop 4 d r = r"
  by (subst reverseData_loop.simps) (simp add: DATA_SIZE_def)

lemma reverseData_unfold:
  "reverseData x =
     push_bit 24 (take_bit 8 x) OR push_bit 16 (take_bit 8 (drop_bit 8 x)) OR
     push_bit 8 (take_bit 8 (drop_bit 16 x)) OR take_bit 8 (drop_bit 24 x)"
proof -
  have "reverseData x = reverseData_loop (Suc (Suc (Suc (Suc 0)))) x
     (take_bit 8 (drop_bit 24 x) OR push_bit 8 (take_bit 8 (drop_bit 16 x)) OR
      push_bit 16 (take_bit 8 (drop_bit 8 x)) OR push_bit 24 (take_bit 8 x))"
    by (simp add: reverseData_def reverseData_loop_step ac_simps)
  also have "Suc (Suc (Suc (Suc 0))) = 4" by simp
  finally show ?thesis by (simp add: reverseData_loop_done ac_simps)
qed

text \<open>Bit \<open>n\<close> of the result, byte by byte: result byte 0 is input byte 3, and so on.\<close>

lemma bit_reverseData:
  "bit (reverseData x) n \<longleftrightarrow>
     (n < 8 \<and> bit x (n + 24)) \<or> (8 \<le> n \<and> n < 16 \<and> bit x (n + 8)) \<or>
     (16 \<le> n \<and> n < 24 \<and> bit x (n - 8)) \<or> (24 \<le> n \<and> n < 32 \<and> bit x (n - 24))"
  by (auto simp add: reverseData_unfold bit_simps add.commute)

text \<open>
  Claim C9. \<^verbatim>\<open>reverseData\<close> swaps the byte order of a 32-bit value (byte 0 with
  byte 3, byte 1 with byte 2), and applying it twice gives the value back, for every 32-bit
  \<open>x\<close>.
\<close>

theorem reverseData_involution:
  "reverseData (reverseData x) = x \<and>
   take_bit 8 (reverseData x) = take_bit 8 (drop_bit 24 x) \<and>
   take_bit 8 (drop_bit 8 (reverseData x)) = take_bit 8 (drop_bit 16 x) \<and>
   take_bit 8 (drop_bit 16 (reverseData x)) = take_bit 8 (drop_bit 8 x) \<and>
   take_bit 8 (drop_bit 24 (reverseData x)) = take_bit 8 x"
proof -
  have inv: "reverseData (reverseData x) = x"
  proof (rule bit_word_eqI)
    fix n assume "n < LENGTH(32)"
    then have "n < 32" by simp
    then consider "n < 8" | "8 \<le> n \<and> n < 16" | "16 \<le> n \<and> n < 24" | "24 \<le> n \<and> n < 32"
      by linarith
    then show "bit (reverseData (reverseData x)) n = bit x n"
      by cases (auto simp add: bit_reverseData)
  qed
  have b0: "take_bit 8 (reverseData x) = take_bit 8 (drop_bit 24 x)"
    by (rule bit_word_eqI) (auto simp add: bit_reverseData bit_simps add.commute)
  have b1: "take_bit 8 (drop_bit 8 (reverseData x)) = take_bit 8 (drop_bit 16 x)"
    by (rule bit_word_eqI) (auto simp add: bit_reverseData bit_simps add.commute)
  have b2: "take_bit 8 (drop_bit 16 (reverseData x)) = take_bit 8 (drop_bit 8 x)"
    by (rule bit_word_eqI) (auto simp add: bit_reverseData bit_simps add.commute)
  have b3: "take_bit 8 (drop_bit 24 (reverseData x)) = take_bit 8 x"
    by (rule bit_word_eqI) (auto simp add: bit_reverseData bit_simps add.commute)
  from inv b0 b1 b2 b3 show ?thesis by simp
qed


subsection \<open>The CRC\<close>

lemma drop_bit_7_byte: "drop_bit 7 (crc::uint8_t) = of_bool (bit crc 7)"
proof (rule bit_word_eqI)
  fix n assume "n < LENGTH(8)"
  show "bit (drop_bit 7 crc) n = bit (of_bool (bit crc 7) :: uint8_t) n"
    using bit_imp_le_length [of crc "7 + n"] by (cases "n = 0") (auto simp add: bit_simps)
qed

lemma and_1_byte: "(byte::uint8_t) AND 0x01 = of_bool (bit byte 0)"
  by (rule bit_word_eqI) (auto simp add: bit_simps)

lemma crc_condition:
  "(drop_bit 7 (crc::uint8_t) XOR (byte AND 0x01) \<noteq> 0) \<longleftrightarrow> (bit crc 7 \<noteq> bit byte 0)"
  unfolding drop_bit_7_byte and_1_byte by (cases "bit crc 7"; cases "bit byte 0") simp_all

text \<open>The inner loop from round \<open>j\<close> on handles bits \<open>j\<close> to 7 of the byte it started with.\<close>

lemma calculateCrc_bits_fold:
  "calculateCrc_bits j b c = fold (\<lambda>k c. crc8_update c (bit b (k - j))) [j..<8] c"
proof (induction j b c rule: calculateCrc_bits.induct)
  case (1 j byte crc)
  show ?case
  proof (cases "j < 8")
    case True
    have "calculateCrc_bits j byte crc =
        calculateCrc_bits (j + 1) (drop_bit 1 byte) (crc8_update crc (bit byte 0))"
      using True
      by (subst calculateCrc_bits.simps)
         (simp add: BITS_PER_BYTE_def crc_condition crc8_update_def)
    also have "\<dots> =
        fold (\<lambda>k c. crc8_update c (bit (drop_bit 1 byte) (k - (j + 1)))) [j + 1..<8]
          (crc8_update crc (bit byte 0))"
      using True "1.IH" by (simp add: BITS_PER_BYTE_def crc_condition crc8_update_def)
    also have "\<dots> =
        fold (\<lambda>k c. crc8_update c (bit byte (k - j))) [j + 1..<8]
          (crc8_update crc (bit byte 0))"
      by (rule fold_cong) (auto simp add: bit_simps Suc_diff_Suc)
    finally show ?thesis using True by (simp add: upt_conv_Cons)
  next
    case False
    then show ?thesis by (subst calculateCrc_bits.simps) (simp add: BITS_PER_BYTE_def)
  qed
qed

lemma calculateCrc_bits_crc8_byte: "calculateCrc_bits 0 b c = crc8_byte b c"
  by (simp add: calculateCrc_bits_fold crc8_byte_def)

lemma calculateCrc_bytes_fold:
  "calculateCrc_bytes i d n c = fold crc8_byte (map (datagram_byte d) [i..<unat n - 1]) c"
proof (induction i d n c rule: calculateCrc_bytes.induct)
  case (1 i d n c)
  have cond: "int i < uint n - 1 \<longleftrightarrow> i < unat n - 1"
    unfolding uint_nat by linarith
  show ?case
  proof (cases "i < unat n - 1")
    case True
    then show ?thesis using "1.IH" cond
      by (subst calculateCrc_bytes.simps) (simp add: upt_conv_Cons calculateCrc_bits_crc8_byte)
  next
    case False
    then show ?thesis using cond by (subst calculateCrc_bytes.simps) simp
  qed
qed

lemma butlast_upt_0: "butlast [0..<n] = [0..<n - 1]"
  by (cases n) simp_all

lemma calculateCrc_crc8: "calculateCrc d n = crc8 (datagram_bytes d (unat n))"
  by (simp add: calculateCrc_def calculateCrc_bytes_fold crc8_def datagram_bytes_def
      map_butlast [symmetric] butlast_upt_0)

text \<open>The bit-serial update agrees with the byte-wise reference on every input.\<close>

lemma bit_reflect8: "bit (reflect8 b) m \<longleftrightarrow> m < 8 \<and> bit b (7 - m)"
  by (auto simp add: reflect8_def bit_horner_sum_bit_iff)

lemma crc8_shift_xor:
  "crc8_shift (c XOR p) = crc8_update c (bit p 7) XOR push_bit 1 p"
  by (cases "bit c 7"; cases "bit p 7")
     (simp_all add: crc8_shift_def crc8_update_def bit_simps push_bit_xor ac_simps)

lemma crc8_bits_reference:
  "j \<le> 8 \<Longrightarrow> fold (\<lambda>k c. crc8_update c (bit b k)) [j..<8] c =
     (crc8_shift ^^ (8 - j)) (c XOR push_bit j (reflect8 b))"
proof (induction "8 - j" arbitrary: j c)
  case 0
  then have "j = 8" by simp
  moreover have "push_bit 8 (reflect8 b) = 0"
    by (rule bit_word_eqI) (simp add: bit_simps)
  ultimately show ?case by simp
next
  case (Suc n)
  then have j: "j < 8" and n: "n = 8 - Suc j" by simp_all
  have b7: "bit (push_bit j (reflect8 b)) 7 = bit b j"
    using j by (auto simp add: bit_simps bit_reflect8)
  have "fold (\<lambda>k c. crc8_update c (bit b k)) [j..<8] c =
      fold (\<lambda>k c. crc8_update c (bit b k)) [Suc j..<8] (crc8_update c (bit b j))"
    using j by (simp add: upt_conv_Cons)
  also have "\<dots> = (crc8_shift ^^ (8 - Suc j))
      (crc8_update c (bit b j) XOR push_bit (Suc j) (reflect8 b))"
    using Suc.hyps(1) [OF n] j by simp
  also have "crc8_update c (bit b j) XOR push_bit (Suc j) (reflect8 b) =
      crc8_shift (c XOR push_bit j (reflect8 b))"
    by (simp add: crc8_shift_xor b7 push_bit_push_bit)
  also have "(crc8_shift ^^ (8 - Suc j)) (crc8_shift (c XOR push_bit j (reflect8 b))) =
      (crc8_shift ^^ (8 - j)) (c XOR push_bit j (reflect8 b))"
  proof -
    from j have "8 - j = Suc (8 - Suc j)" by simp
    then show ?thesis by (simp only: funpow_Suc_right o_apply)
  qed
  finally show ?case .
qed

lemma crc8_byte_reference: "crc8_byte b c = (crc8_shift ^^ 8) (c XOR reflect8 b)"
  using crc8_bits_reference [of 0 b c] by (simp add: crc8_byte_def)

lemma crc8_reference: "crc8 message = crc8_reference (butlast message)"
  by (simp add: crc8_def crc8_reference_def crc8_byte_reference [abs_def])

text \<open>
  Claim C1. For a datagram of \<open>n\<close> bytes (that fits the datagram's integer type),
  \<^verbatim>\<open>calculateCrc\<close> runs over the first \<open>n - 1\<close> bytes only and leaves out the
  trailing CRC byte; each byte goes through its 8 bits from the least significant one, and
  each bit updates the 8-bit register as the specification says: shifted left by one and
  XORed with 0x07 when the register's top bit differs from the data bit, shifted left by one
  otherwise. The result is a function of the datagram, it agrees with the byte-wise reference
  CRC-8 (polynomial 0x07, bytes fed least-significant-bit first) on every input, and on the
  read requests for registers 0x06 and 0x00 at address 0 and on a write datagram it gives the
  known values 0x6F, 0x48 and 0x40.
\<close>

theorem calculateCrc_is_crc8:
  "(8 * unat n \<le> LENGTH('a) \<longrightarrow>
      calculateCrc (d :: 'a::len word) n = crc8 (datagram_bytes d (unat n)) \<and>
      calculateCrc d n = crc8_reference (butlast (datagram_bytes d (unat n))) \<and>
      length (butlast (datagram_bytes d (unat n))) = unat n - 1) \<and>
   crc8 bs = fold (\<lambda>byte crc. fold (\<lambda>k c. crc8_update c (bit byte k)) [0..<8] crc)
      (take (length bs - 1) bs) 0 \<and>
   calculateCrc (0x00060005 :: uint32_t) 4 = 0x6F \<and>
   crc8_reference [0x05, 0x00, 0x06] = 0x6F \<and>
   calculateCrc (0x00000005 :: uint32_t) 4 = 0x48 \<and>
   crc8_reference [0x05, 0x00, 0x00] = 0x48 \<and>
   calculateCrc (0x00C0000000800005 :: uint64_t) 8 = 0x40 \<and>
   crc8_reference [0x05, 0x00, 0x80, 0x00, 0x00, 0x00, 0xC0] = 0x40"
proof -
  have general: "calculateCrc d n = crc8 (datagram_bytes d (unat n))"
    by (rule calculateCrc_crc8)
  have reference: "calculateCrc d n = crc8_reference (butlast (datagram_bytes d (unat n)))"
    by (simp add: calculateCrc_crc8 crc8_reference)
  have len: "length (butlast (datagram_bytes d (unat n))) = unat n - 1"
    by (simp add: datagram_bytes_def)
  have words: "crc8 bs =
      fold (\<lambda>byte crc. fold (\<lambda>k c. crc8_update c (bit byte k)) [0..<8] crc)
        (take (length bs - 1) bs) 0"
    by (simp add: crc8_def crc8_byte_def [abs_def] butlast_conv_take)
  have v1: "calculateCrc (0x00060005 :: uint32_t) 4 = 0x6F" by code_simp
  have r1: "crc8_reference [0x05, 0x00, 0x06] = 0x6F" by code_simp
  have v2: "calculateCrc (0x00000005 :: uint32_t) 4 = 0x48" by code_simp
  have r2: "crc8_reference [0x05, 0x00, 0x00] = 0x48" by code_simp
  have v3: "calculateCrc (0x00C0000000800005 :: uint64_t) 8 = 0x40" by code_simp
  have r3: "crc8_reference [0x05, 0x00, 0x80, 0x00, 0x00, 0x00, 0xC0] = 0x40" by code_simp
  from general reference len words v1 r1 v2 r2 v3 r3 show ?thesis by blast
qed

theorem calculateCrc_is_crc8_witness:
  "8 * unat (4 :: uint8_t) \<le> LENGTH(32) \<and>
   calculateCrc (0x6F060005 :: uint32_t) 4 = crc8 [0x05, 0x00, 0x06, 0x6F] \<and>
   crc8 [0x05, 0x00, 0x06, 0x6F] = 0x6F"
proof -
  have bytes: "datagram_bytes (0x6F060005 :: uint32_t) (unat (4 :: uint8_t)) =
      [0x05, 0x00, 0x06, 0x6F]"
    by code_simp
  have val: "crc8 [0x05, 0x00, 0x06, 0x6F] = 0x6F" by code_simp
  have fits: "8 * unat (4 :: uint8_t) \<le> LENGTH(32)" by simp
  from calculateCrc_is_crc8 [of 4 "0x6F060005 :: uint32_t" "[]"] fits
  have "calculateCrc (0x6F060005 :: uint32_t) 4 =
      crc8 (datagram_bytes (0x6F060005 :: uint32_t) (unat (4 :: uint8_t)))"
    by blast
  with bytes val fits show ?thesis by simp
qed

section \<open>Properties of the parameter mapping layer\<close>

lemma constrained_percent:
  "(ucast (constrain' (ucast (p::uint8_t)) (ucast PERCENT_MIN) (ucast PERCENT_MAX)) :: uint8_t) =
     (if 100 < p then 100 else p)"
proof -
  have "unat p < 2 ^ 32"
    using unsigned_less [of p, where ?'a = nat] by simp
  then have up: "unat (ucast p :: uint32_t) = unat p"
    by (simp add: unsigned_ucast_eq take_bit_nat_eq_self)
  have lt: "(100 < (ucast p :: uint32_t)) \<longleftrightarrow> (100 < p)"
    by (simp add: word_less_nat_alt up)
  have id8: "(ucast (ucast p :: uint32_t) :: uint8_t) = p"
    by (simp add: ucast_up_ucast_id is_up)
  show ?thesis
    by (simp add: constrain'_def PERCENT_MIN_def PERCENT_MAX_def lt id8)
qed

lemma sdiv_nonneg: "0 \<le> a \<Longrightarrow> 0 < b \<Longrightarrow> (a::int) sdiv b = a div b"
  by (simp add: signed_divide_int_def sgn_if)

lemma map_percent:
  assumes "p \<le> 100" and "lo \<le> hi"
  shows "map_uint8 p PERCENT_MIN PERCENT_MAX lo hi =
     Some (word_of_int (uint p * (uint hi - uint lo) div 100 + uint lo))"
    and "uint lo \<le> uint p * (uint hi - uint lo) div 100 + uint lo"
    and "uint p * (uint hi - uint lo) div 100 + uint lo \<le> uint hi"
proof -
  let ?d = "uint hi - uint lo"
  from assms have p: "0 \<le> uint p" "uint p \<le> 100" by (simp_all add: word_le_def)
  from assms have d: "0 \<le> ?d" by (simp add: word_le_def)
  have hi: "uint hi < 256" using uint_bounded [of hi] by simp
  have lo: "0 \<le> uint lo" by simp
  have "uint p * ?d \<le> 100 * ?d" using p d by (intro mult_right_mono)
  then have "uint p * ?d div 100 \<le> (100 * ?d) div 100"
    by (rule zdiv_mono1) simp
  then have ub: "uint p * ?d div 100 \<le> ?d" by simp
  have lb: "0 \<le> uint p * ?d div 100" using p d by (simp add: pos_imp_zdiv_nonneg_iff)
  show "uint lo \<le> uint p * ?d div 100 + uint lo" using lb by simp
  show "uint p * ?d div 100 + uint lo \<le> uint hi" using ub by simp
  have "(uint p * ?d) sdiv 100 = uint p * ?d div 100"
    using p d by (intro sdiv_nonneg) simp_all
  moreover have "\<not> uint p * ?d div 100 + uint lo < 0" using lb lo by linarith
  moreover have "\<not> 255 < uint p * ?d div 100 + uint lo" using ub hi by linarith
  ultimately show "map_uint8 p PERCENT_MIN PERCENT_MAX lo hi =
     Some (word_of_int (uint p * ?d div 100 + uint lo))"
    by (simp add: map_uint8_def PERCENT_MIN_def PERCENT_MAX_def Let_def)
qed


lemma sdiv_100_exact: "(100 * d) sdiv 100 = (d::int)"
proof (cases "d < 0")
  case True
  then have "\<bar>100 * d\<bar> = 100 * (- d)" by simp
  then have "\<bar>100 * d\<bar> div 100 = - d" by simp
  with True show ?thesis by (simp add: signed_divide_int_def sgn_if)
next
  case False
  then have "\<bar>100 * d\<bar> = 100 * d" by simp
  then have "\<bar>100 * d\<bar> div 100 = d" by simp
  with False show ?thesis by (simp add: signed_divide_int_def sgn_if)
qed

lemma percentToCurrentSetting_clamped:
  "percentToCurrentSetting H p =
     map_uint8 (if 100 < p then 100 else p) PERCENT_MIN PERCENT_MAX
       (CURRENT_SETTING_MIN H) (CURRENT_SETTING_MAX H)"
  by (simp only: percentToCurrentSetting_def Let_def constrained_percent)

lemma map_uint8_percent_0: "map_uint8 0 PERCENT_MIN PERCENT_MAX lo hi = Some lo"
proof -
  have "\<not> 255 < uint lo" using uint_bounded [of lo] by simp
  then show ?thesis
    by (simp add: map_uint8_def PERCENT_MIN_def PERCENT_MAX_def)
qed

lemma map_uint8_percent_100: "map_uint8 100 PERCENT_MIN PERCENT_MAX lo hi = Some hi"
proof -
  have "(100 * (uint hi - uint lo)) sdiv 100 = uint hi - uint lo"
    by (rule sdiv_100_exact)
  moreover have "\<not> 255 < uint hi" using uint_bounded [of hi] by simp
  ultimately show ?thesis
    by (simp add: map_uint8_def PERCENT_MIN_def PERCENT_MAX_def)
qed

lemma map_uint8_percent_Some: "\<exists>y. map_uint8 x PERCENT_MIN PERCENT_MAX lo hi = Some y"
  by (simp add: map_uint8_def PERCENT_MIN_def PERCENT_MAX_def Let_def)

lemma map_uint8_percent_mono:
  assumes "p \<le> q" and "q \<le> 100" and "lo \<le> hi"
  shows "\<exists>a b. map_uint8 p PERCENT_MIN PERCENT_MAX lo hi = Some a \<and>
     map_uint8 q PERCENT_MIN PERCENT_MAX lo hi = Some b \<and> a \<le> b \<and> lo \<le> a \<and> b \<le> hi"
proof -
  let ?d = "uint hi - uint lo"
  let ?f = "\<lambda>x. uint x * ?d div 100 + uint lo"
  from assms have p100: "p \<le> 100" by simp
  note P = map_percent [OF p100 assms(3)]
  note Q = map_percent [OF assms(2) assms(3)]
  have hi: "uint hi < 2 ^ 8" using uint_bounded [of hi] by simp
  have lo: "0 \<le> uint lo" by simp
  have "0 \<le> ?f p" "?f p < 2 ^ LENGTH(8)" using P(2,3) hi lo by simp_all
  then have fp: "uint (word_of_int (?f p) :: uint8_t) = ?f p"
    by (simp only: uint_word_of_int mod_pos_pos_trivial)
  have "0 \<le> ?f q" "?f q < 2 ^ LENGTH(8)" using Q(2,3) hi lo by simp_all
  then have fq: "uint (word_of_int (?f q) :: uint8_t) = ?f q"
    by (simp only: uint_word_of_int mod_pos_pos_trivial)
  from assms have d: "0 \<le> ?d" and pq: "uint p \<le> uint q" by (simp_all add: word_le_def)
  then have "uint p * ?d \<le> uint q * ?d" by (intro mult_right_mono)
  then have "?f p \<le> ?f q" by (simp add: zdiv_mono1)
  then have "(word_of_int (?f p) :: uint8_t) \<le> word_of_int (?f q)"
    unfolding word_le_def fp fq .
  moreover have "lo \<le> (word_of_int (?f p) :: uint8_t)"
    unfolding word_le_def fp using P(2) .
  moreover have "(word_of_int (?f q) :: uint8_t) \<le> hi"
    unfolding word_le_def fq using Q(3) .
  ultimately show ?thesis using P(1) Q(1) by blast
qed

text \<open>
  Claim C8. \<^verbatim>\<open>percentToCurrentSetting\<close> maps percent 0 to the minimum current
  setting and percent 100 to the maximum one; it always returns a setting, and a percent above
  100 is first constrained to 100; over the percents 0 to 100 it is monotonic non-decreasing
  (with results between the minimum and the maximum setting), provided the header's minimum
  setting is not above its maximum.
\<close>

theorem percentToCurrentSetting_saturates_monotone:
  "percentToCurrentSetting H 0 = Some (CURRENT_SETTING_MIN H) \<and>
   percentToCurrentSetting H 100 = Some (CURRENT_SETTING_MAX H) \<and>
   (\<exists>setting. percentToCurrentSetting H p = Some setting) \<and>
   (100 < p \<longrightarrow> percentToCurrentSetting H p = percentToCurrentSetting H 100) \<and>
   (CURRENT_SETTING_MIN H \<le> CURRENT_SETTING_MAX H \<longrightarrow> p \<le> q \<longrightarrow> q \<le> 100 \<longrightarrow>
      (\<exists>a b. percentToCurrentSetting H p = Some a \<and> percentToCurrentSetting H q = Some b \<and>
         a \<le> b \<and> CURRENT_SETTING_MIN H \<le> a \<and> b \<le> CURRENT_SETTING_MAX H))"
proof (intro conjI impI)
  show "percentToCurrentSetting H 0 = Some (CURRENT_SETTING_MIN H)"
    by (simp add: percentToCurrentSetting_clamped map_uint8_percent_0)
  show "percentToCurrentSetting H 100 = Some (CURRENT_SETTING_MAX H)"
    by (simp add: percentToCurrentSetting_clamped map_uint8_percent_100)
  show "\<exists>setting. percentToCurrentSetting H p = Some setting"
    unfolding percentToCurrentSetting_clamped by (rule map_uint8_percent_Some)
  show "percentToCurrentSetting H p = percentToCurrentSetting H 100" if "100 < p"
    using that by (simp add: percentToCurrentSetting_clamped)
  show "\<exists>a b. percentToCurrentSetting H p = Some a \<and> percentToCurrentSetting H q = Some b \<and>
         a \<le> b \<and> CURRENT_SETTING_MIN H \<le> a \<and> b \<le> CURRENT_SETTING_MAX H"
    if "CURRENT_SETTING_MIN H \<le> CURRENT_SETTING_MAX H" "p \<le> q" "q \<le> 100"
  proof -
    from that have "\<not> 100 < p" "\<not> 100 < q" by auto
    then show ?thesis
      using map_uint8_percent_mono [OF that(2,3,1)]
      by (simp add: percentToCurrentSetting_clamped)
  qed
qed

theorem percentToCurrentSetting_saturates_monotone_witness:
  "CURRENT_SETTING_MIN example_header \<le> CURRENT_SETTING_MAX example_header \<and>
   (30 :: uint8_t) \<le> 70 \<and> (70 :: uint8_t) \<le> 100 \<and> (100 :: uint8_t) < 200 \<and>
   percentToCurrentSetting example_header 30 = Some 9 \<and>
   percentToCurrentSetting example_header 70 = Some 21 \<and>
   percentToCurrentSetting example_header 200 = Some 31 \<and>
   percentToCurrentSetting example_header 0 = Some 0 \<and>
   percentToCurrentSetting example_header 100 = Some 31"
proof -
  have a: "percentToCurrentSetting example_header 30 = Some 9" by code_simp
  have b: "percentToCurrentSetting example_header 70 = Some 21" by code_simp
  have c: "CURRENT_SETTING_MIN example_header = 0" "CURRENT_SETTING_MAX example_header = 31"
    by (simp_all add: example_header_def)
  from percentToCurrentSetting_saturates_monotone [of example_header 200 200]
  have d: "percentToCurrentSetting example_header 200 = Some 31"
    by (simp add: c)
  from percentToCurrentSetting_saturates_monotone [of example_header 30 70]
  show ?thesis using a b c d by simp
qed


section \<open>Properties of bit-fields\<close>

lemma bit_get_field:
  "bit (get_field f w) n \<longleftrightarrow> n < bf_width f \<and> bit w (bf_shift f + n)"
  by (simp add: get_field_def bit_simps)

lemma bit_set_field:
  "bit (set_field f v (w :: 'a::len word)) m \<longleftrightarrow>
     (if bf_shift f \<le> m \<and> m < bf_shift f + bf_width f
      then m < LENGTH('a) \<and> bit (ucast v :: 'a word) (m - bf_shift f)
      else bit w m)"
  by (auto simp add: set_field_def bit_simps dest: bit_imp_le_length)

lemma set_field_outside:
  "\<not> (bf_shift f \<le> m \<and> m < bf_shift f + bf_width f) \<Longrightarrow>
     bit (set_field f v w) m = bit w m"
  by (auto simp add: bit_set_field)

lemma get_field_set_field_other:
  "separate f g \<Longrightarrow> get_field g (set_field f v w) = get_field g w"
  by (rule bit_word_eqI) (auto simp add: bit_get_field bit_set_field separate_def)

lemma get_field_set_field_same:
  "bf_shift f + bf_width f \<le> LENGTH('a) \<Longrightarrow>
     get_field f (set_field f v (w :: 'a::len word)) = take_bit (bf_width f) (ucast v)"
  by (rule bit_word_eqI) (auto simp add: bit_get_field bit_set_field bit_simps)

section \<open>Properties of write transactions\<close>

lemma transmitted_bytes_append:
  "transmitted_bytes (xs @ ys) = transmitted_bytes xs @ transmitted_bytes ys"
  by (induction xs rule: transmitted_bytes.induct) simp_all

lemma log_call_update: "log_call c s = s\<lparr>hal_calls := hal_calls s @ [c]\<rparr>"
  by (simp add: log_call_def)

lemma sendDatagramUnidirectional_loop_calls:
  "\<exists>cs. sendDatagramUnidirectional_loop env i d n s = s\<lparr>hal_calls := hal_calls s @ cs\<rparr> \<and>
     transmitted_bytes cs = map (datagram_byte d) [i..<unat n]"
proof (induction env i d n s rule: sendDatagramUnidirectional_loop.induct)
  case (1 env i d n s)
  show ?case
  proof (cases "i < unat n")
    case False
    then have "sendDatagramUnidirectional_loop env i d n s = s\<lparr>hal_calls := hal_calls s @ []\<rparr>"
      by (subst sendDatagramUnidirectional_loop.simps) simp
    moreover have "transmitted_bytes [] = map (datagram_byte d) [i..<unat n]"
      using False by simp
    ultimately show ?thesis by blast
  next
    case True
    define st where "st = transmit_status env (length (hal_calls s))"
    define s1 where "s1 = log_call (UART_Transmit (datagram_byte d i) 1000) s"
    define s2 where "s2 = (if st \<noteq> HAL_OK then log_call BSP_LED_On_LED_GREEN s1 else s1)"
    have tx: "(st, s1) = HAL_UART_Transmit env (datagram_byte d i) 1000 s"
      by (simp add: HAL_UART_Transmit_def st_def s1_def)
    have step: "sendDatagramUnidirectional_loop env i d n s =
        sendDatagramUnidirectional_loop env (i + 1) d n s2"
      using True
      by (subst sendDatagramUnidirectional_loop.simps)
         (simp add: tx [symmetric] s2_def Let_def)
    have "\<exists>cs. sendDatagramUnidirectional_loop env (i + 1) d n s2 =
              s2\<lparr>hal_calls := hal_calls s2 @ cs\<rparr> \<and>
            transmitted_bytes cs = map (datagram_byte d) [i + 1..<unat n]"
      by (rule "1.IH" [OF True refl refl tx s2_def])
    then obtain cs where cs:
      "sendDatagramUnidirectional_loop env (i + 1) d n s2 = s2\<lparr>hal_calls := hal_calls s2 @ cs\<rparr>"
      "transmitted_bytes cs = map (datagram_byte d) [i + 1..<unat n]"
      by blast
    obtain c0 where c0: "s2 = s\<lparr>hal_calls := hal_calls s @ c0\<rparr>"
      "transmitted_bytes c0 = [datagram_byte d i]"
      by (cases "st = HAL_OK") (simp_all add: s2_def s1_def log_call_update)
    have "sendDatagramUnidirectional_loop env i d n s = s2\<lparr>hal_calls := hal_calls s2 @ cs\<rparr>"
      by (simp only: step cs(1))
    also have "\<dots> = s\<lparr>hal_calls := hal_calls s @ (c0 @ cs)\<rparr>"
      by (simp add: c0(1))
    finally have "sendDatagramUnidirectional_loop env i d n s =
        s\<lparr>hal_calls := hal_calls s @ (c0 @ cs)\<rparr>" .
    moreover have "transmitted_bytes (c0 @ cs) = map (datagram_byte d) [i..<unat n]"
      using True by (simp add: transmitted_bytes_append cs(2) c0(2) upt_conv_Cons)
    ultimately show ?thesis by blast
  qed
qed

lemma write_TMC2209_calls:
  "\<exists>cs. write_TMC2209 env H a d s = s\<lparr>hal_calls := hal_calls s @ cs\<rparr> \<and>
     transmitted_bytes cs =
       datagram_bytes (write_datagram H (serial_address' s) a d)
         (unat (WRITE_READ_REPLY_DATAGRAM_SIZE H))"
  unfolding write_TMC2209_def sendDatagramUnidirectional_def datagram_bytes_def
  by (rule sendDatagramUnidirectional_loop_calls)

lemma writeStoredDriverCurrent_effect:
  "\<exists>cs. writeStoredDriverCurrent env H s =
       s\<lparr>hal_calls := hal_calls s @ cs,
         cool_config' := set_field (CoolConfig_seimin H) (seimin_setting H s) (cool_config' s)\<rparr> \<and>
     transmitted_bytes cs =
       write_bytes H s (ADDRESS_IHOLD_IRUN H) (driver_current' s) @
       (if cool_step_enabled' s
        then write_bytes H s (ADDRESS_COOLCONF H)
               (set_field (CoolConfig_seimin H) (seimin_setting H s) (cool_config' s))
        else [])"
proof -
  obtain c1 where c1:
    "write_TMC2209 env H (ADDRESS_IHOLD_IRUN H) (driver_current' s) s =
       s\<lparr>hal_calls := hal_calls s @ c1\<rparr>"
    "transmitted_bytes c1 = write_bytes H s (ADDRESS_IHOLD_IRUN H) (driver_current' s)"
    unfolding write_bytes_def using write_TMC2209_calls by blast
  define s2 where "s2 = s\<lparr>hal_calls := hal_calls s @ c1,
      cool_config' := set_field (CoolConfig_seimin H) (seimin_setting H s) (cool_config' s)\<rparr>"
  have unfold: "writeStoredDriverCurrent env H s =
      (if cool_step_enabled' s
       then write_TMC2209 env H (ADDRESS_COOLCONF H) (cool_config' s2) s2 else s2)"
    by (cases "unat (SEIMIN_UPPER_CURRENT_LIMIT H) \<le>
           unat (get_field (DriverCurrent_irun H) (driver_current' s))")
       (simp_all add: writeStoredDriverCurrent_def c1(1) Let_def s2_def seimin_setting_def)
  show ?thesis
  proof (cases "cool_step_enabled' s")
    case False
    then have "writeStoredDriverCurrent env H s = s2" by (simp add: unfold)
    moreover have "transmitted_bytes c1 =
        write_bytes H s (ADDRESS_IHOLD_IRUN H) (driver_current' s) @ []"
      by (simp add: c1(2))
    ultimately show ?thesis using False unfolding s2_def by auto
  next
    case True
    obtain c2 where c2:
      "write_TMC2209 env H (ADDRESS_COOLCONF H) (cool_config' s2) s2 =
         s2\<lparr>hal_calls := hal_calls s2 @ c2\<rparr>"
      "transmitted_bytes c2 = write_bytes H s2 (ADDRESS_COOLCONF H) (cool_config' s2)"
      unfolding write_bytes_def using write_TMC2209_calls by blast
    have "writeStoredDriverCurrent env H s = s2\<lparr>hal_calls := hal_calls s2 @ c2\<rparr>"
      using True by (simp only: unfold c2(1) if_True)
    also have "\<dots> =
        s\<lparr>hal_calls := hal_calls s @ (c1 @ c2),
          cool_config' := set_field (CoolConfig_seimin H) (seimin_setting H s) (cool_config' s)\<rparr>"
      unfolding s2_def by (intro TMC2209.equality) simp_all
    finally have "writeStoredDriverCurrent env H s =
        s\<lparr>hal_calls := hal_calls s @ (c1 @ c2),
          cool_config' := set_field (CoolConfig_seimin H) (seimin_setting H s) (cool_config' s)\<rparr>" .
    moreover have "transmitted_bytes (c1 @ c2) =
        write_bytes H s (ADDRESS_IHOLD_IRUN H) (driver_current' s) @
        write_bytes H s (ADDRESS_COOLCONF H)
          (set_field (CoolConfig_seimin H) (seimin_setting H s) (cool_config' s))"
      by (simp add: transmitted_bytes_append c1(2) c2(2)) (simp add: s2_def write_bytes_def)
    ultimately show ?thesis using True by auto
  qed
qed

section \<open>Properties of the current setters\<close>

lemma seimin_setting_cong:
  "driver_current' s' = driver_current' s \<Longrightarrow> seimin_setting H s' = seimin_setting H s"
  by (simp add: seimin_setting_def)

lemma writeStoredDriverCurrent_driver_current:
  "driver_current' (writeStoredDriverCurrent env H s) = driver_current' s"
  using writeStoredDriverCurrent_effect [of env H s] by auto

lemma writeStoredDriverCurrent_registers:
  "global_config' (writeStoredDriverCurrent env H s) = global_config' s \<and>
   chopper_config' (writeStoredDriverCurrent env H s) = chopper_config' s \<and>
   pwm_config' (writeStoredDriverCurrent env H s) = pwm_config' s"
  using writeStoredDriverCurrent_effect [of env H s] by auto

lemma writeStoredDriverCurrent_written:
  assumes fits: "bf_shift (CoolConfig_seimin H) + bf_width (CoolConfig_seimin H) \<le> 32"
    and same: "serial_address' s0 = serial_address' s" "hal_calls s0 = hal_calls s"
      "cool_step_enabled' s0 = cool_step_enabled' s"
  shows "stored_driver_current_written H s (writeStoredDriverCurrent env H s0)"
proof -
  let ?s' = "writeStoredDriverCurrent env H s0"
  obtain cs where cs:
    "?s' = s0\<lparr>hal_calls := hal_calls s0 @ cs,
         cool_config' := set_field (CoolConfig_seimin H) (seimin_setting H s0) (cool_config' s0)\<rparr>"
    "transmitted_bytes cs =
       write_bytes H s0 (ADDRESS_IHOLD_IRUN H) (driver_current' s0) @
       (if cool_step_enabled' s0
        then write_bytes H s0 (ADDRESS_COOLCONF H)
               (set_field (CoolConfig_seimin H) (seimin_setting H s0) (cool_config' s0))
        else [])"
    using writeStoredDriverCurrent_effect [of env H s0] by blast
  have dc: "driver_current' ?s' = driver_current' s0" by (simp add: cs(1))
  have cc: "cool_config' ?s' =
      set_field (CoolConfig_seimin H) (seimin_setting H s0) (cool_config' s0)"
    by (simp add: cs(1))
  have wb: "write_bytes H s0 = write_bytes H s"
    by (simp add: write_bytes_def [abs_def] same(1))
  have "get_field (CoolConfig_seimin H) (cool_config' ?s') =
      take_bit (bf_width (CoolConfig_seimin H)) (ucast (seimin_setting H ?s'))"
    using fits by (simp add: cc get_field_set_field_same seimin_setting_cong [OF dc])
  then have sei: "get_field (CoolConfig_seimin H) (cool_config' ?s') =
      take_bit (bf_width (CoolConfig_seimin H)) (ucast (seimin_setting H ?s')) \<and>
     (take_bit (bf_width (CoolConfig_seimin H)) (ucast (SEIMIN_UPPER_SETTING H) :: uint32_t) \<noteq>
        take_bit (bf_width (CoolConfig_seimin H)) (ucast (SEIMIN_LOWER_SETTING H)) \<longrightarrow>
      (get_field (CoolConfig_seimin H) (cool_config' ?s') =
         take_bit (bf_width (CoolConfig_seimin H)) (ucast (SEIMIN_UPPER_SETTING H)) \<longleftrightarrow>
       unat (SEIMIN_UPPER_CURRENT_LIMIT H) \<le>
         unat (get_field (DriverCurrent_irun H) (driver_current' ?s'))))"
    by (auto simp add: seimin_setting_def)
  have en: "cool_step_enabled' ?s' = cool_step_enabled' s"
    by (simp add: cs(1) same(3))
  moreover have "transmitted_bytes (hal_calls ?s') =
       transmitted_bytes (hal_calls s) @
       write_bytes H s (ADDRESS_IHOLD_IRUN H) (driver_current' ?s') @
       (if cool_step_enabled' s
        then write_bytes H s (ADDRESS_COOLCONF H) (cool_config' ?s')
        else [])"
    unfolding dc cc by (simp add: cs(1) transmitted_bytes_append cs(2) wb same)
  ultimately show ?thesis
    unfolding stored_driver_current_written_def using sei en by blast
qed

lemma percentToCurrentSetting_Some: "\<exists>y. percentToCurrentSetting H p = Some y"
  unfolding percentToCurrentSetting_clamped by (rule map_uint8_percent_Some)

lemma percentToHoldDelaySetting_Some: "\<exists>y. percentToHoldDelaySetting H p = Some y"
  unfolding percentToHoldDelaySetting_def Let_def by (rule map_uint8_percent_Some)

text \<open>
  Claim C10. Each of \<^verbatim>\<open>setRunCurrent\<close>, \<^verbatim>\<open>setHoldCurrent\<close>,
  \<^verbatim>\<open>setHoldDelay\<close>, \<^verbatim>\<open>setAllCurrentValues\<close> and \<^verbatim>\<open>minimizeMotorCurrent\<close>
  returns, and afterwards the cached \<^verbatim>\<open>seimin\<close> field is the upper setting if the
  cached \<^verbatim>\<open>irun\<close> is at least the upper current limit and the lower setting otherwise
  (hence the upper one exactly then, when the two settings differ in the field); after the
  write datagram of the current register, the write datagram of the cool-step register, with
  the new \<^verbatim>\<open>seimin\<close>, is transmitted if cool-step is enabled, and nothing is transmitted
  if it is not. The \<^verbatim>\<open>seimin\<close> field has to lie within the 32 bits of its register.
\<close>

theorem driver_current_write_updates_seimin:
  "bf_shift (CoolConfig_seimin H) + bf_width (CoolConfig_seimin H) \<le> 32 \<longrightarrow>
     (\<exists>s'. setRunCurrent env H percent s = Some s' \<and> stored_driver_current_written H s s') \<and>
     (\<exists>s'. setHoldCurrent env H percent s = Some s' \<and> stored_driver_current_written H s s') \<and>
     (\<exists>s'. setHoldDelay env H percent s = Some s' \<and> stored_driver_current_written H s s') \<and>
     (\<exists>s'. setAllCurrentValues env H run_percent hold_percent delay_percent s = Some s' \<and>
        stored_driver_current_written H s s') \<and>
     stored_driver_current_written H s (minimizeMotorCurrent env H s)"
proof (intro impI conjI)
  assume fits: "bf_shift (CoolConfig_seimin H) + bf_width (CoolConfig_seimin H) \<le> 32"
  note W = writeStoredDriverCurrent_written [OF fits]
  obtain rc where rc: "percentToCurrentSetting H percent = Some rc"
    using percentToCurrentSetting_Some by blast
  obtain hd where hd: "percentToHoldDelaySetting H percent = Some hd"
    using percentToHoldDelaySetting_Some by blast
  obtain r1 where r1: "percentToCurrentSetting H run_percent = Some r1"
    using percentToCurrentSetting_Some by blast
  obtain h1 where h1: "percentToCurrentSetting H hold_percent = Some h1"
    using percentToCurrentSetting_Some by blast
  obtain d1 where d1: "percentToHoldDelaySetting H delay_percent = Some d1"
    using percentToHoldDelaySetting_Some by blast
  show "\<exists>s'. setRunCurrent env H percent s = Some s' \<and> stored_driver_current_written H s s'"
    by (simp add: setRunCurrent_def rc W)
  show "\<exists>s'. setHoldCurrent env H percent s = Some s' \<and> stored_driver_current_written H s s'"
    by (simp add: setHoldCurrent_def rc W)
  show "\<exists>s'. setHoldDelay env H percent s = Some s' \<and> stored_driver_current_written H s s'"
    by (simp add: setHoldDelay_def hd W)
  show "\<exists>s'. setAllCurrentValues env H run_percent hold_percent delay_percent s = Some s' \<and>
        stored_driver_current_written H s s'"
    by (simp add: setAllCurrentValues_def r1 h1 d1 W)
  show "stored_driver_current_written H s (minimizeMotorCurrent env H s)"
    by (simp add: minimizeMotorCurrent_def W)
qed


theorem driver_current_write_updates_seimin_witness:
  "bf_shift (CoolConfig_seimin example_header) + bf_width (CoolConfig_seimin example_header) \<le> 32 \<and>
   cool_step_enabled' (enableCoolStep quiet_env example_header 1 0 example_driver) \<and>
   (\<exists>s'. setRunCurrent quiet_env example_header 100
           (enableCoolStep quiet_env example_header 1 0 example_driver) = Some s' \<and>
      stored_driver_current_written example_header
        (enableCoolStep quiet_env example_header 1 0 example_driver) s') \<and>
   stored_driver_current_written example_header
     (enableCoolStep quiet_env example_header 1 0 example_driver)
     (minimizeMotorCurrent quiet_env example_header
        (enableCoolStep quiet_env example_header 1 0 example_driver))"
proof -
  have fits: "bf_shift (CoolConfig_seimin example_header) +
      bf_width (CoolConfig_seimin example_header) \<le> 32"
    by (simp add: example_header_def)
  have on: "cool_step_enabled' (enableCoolStep quiet_env example_header 1 0 example_driver)"
    by (simp add: enableCoolStep_def Let_def)
  from driver_current_write_updates_seimin
    [of example_header quiet_env 100 "enableCoolStep quiet_env example_header 1 0 example_driver"
      100 100 100] fits on
  show ?thesis by blast
qed

lemma set_field_only_field_changed: "only_field_changed f w (set_field f v w)"
  unfolding only_field_changed_def by (auto simp add: bit_set_field)

lemma only_field_changed_get_field:
  assumes "only_field_changed f w w'" and "separate f g"
  shows "get_field g w' = get_field g w"
proof (rule bit_word_eqI)
  fix n
  show "bit (get_field g w') n = bit (get_field g w) n"
  proof (cases "n < bf_width g")
    case True
    with assms(2) have "\<not> (bf_shift f \<le> bf_shift g + n \<and> bf_shift g + n < bf_shift f + bf_width f)"
      by (auto simp add: separate_def)
    with assms(1) have "bit w' (bf_shift g + n) = bit w (bf_shift g + n)"
      by (simp add: only_field_changed_def)
    then show ?thesis by (simp add: bit_get_field)
  next
    case False
    then show ?thesis by (simp add: bit_get_field)
  qed
qed

text \<open>
  Claim C6. \<^verbatim>\<open>setRunCurrent\<close>, \<^verbatim>\<open>setHoldCurrent\<close> and \<^verbatim>\<open>setHoldDelay\<close>
  return, and each changes no bit of the cached current register outside the one bit-field
  it assigns; so the other two fields, which share no bit with it, read as before. The field
  itself holds the mapped setting (when it lies within the register), and the cached global,
  chopper and PWM registers are untouched.
\<close>

theorem current_setters_preserve_other_fields:
  "(\<exists>s' setting. setRunCurrent env H percent s = Some s' \<and>
      percentToCurrentSetting H percent = Some setting \<and>
      only_field_changed (DriverCurrent_irun H) (driver_current' s) (driver_current' s') \<and>
      (separate (DriverCurrent_irun H) (DriverCurrent_ihold H) \<longrightarrow>
         get_field (DriverCurrent_ihold H) (driver_current' s') =
         get_field (DriverCurrent_ihold H) (driver_current' s)) \<and>
      (separate (DriverCurrent_irun H) (DriverCurrent_iholddelay H) \<longrightarrow>
         get_field (DriverCurrent_iholddelay H) (driver_current' s') =
         get_field (DriverCurrent_iholddelay H) (driver_current' s)) \<and>
      (bf_shift (DriverCurrent_irun H) + bf_width (DriverCurrent_irun H) \<le> 32 \<longrightarrow>
         get_field (DriverCurrent_irun H) (driver_current' s') =
         take_bit (bf_width (DriverCurrent_irun H)) (ucast setting)) \<and>
      global_config' s' = global_config' s \<and> chopper_config' s' = chopper_config' s \<and>
      pwm_config' s' = pwm_config' s) \<and>
   (\<exists>s' setting. setHoldCurrent env H percent s = Some s' \<and>
      percentToCurrentSetting H percent = Some setting \<and>
      only_field_changed (DriverCurrent_ihold H) (driver_current' s) (driver_current' s') \<and>
      (separate (DriverCurrent_ihold H) (DriverCurrent_irun H) \<longrightarrow>
         get_field (DriverCurrent_irun H) (driver_current' s') =
         get_field (DriverCurrent_irun H) (driver_current' s)) \<and>
      (separate (DriverCurrent_ihold H) (DriverCurrent_iholddelay H) \<longrightarrow>
         get_field (DriverCurrent_iholddelay H) (driver_current' s') =
         get_field (DriverCurrent_iholddelay H) (driver_current' s)) \<and>
      (bf_shift (DriverCurrent_ihold H) + bf_width (DriverCurrent_ihold H) \<le> 32 \<longrightarrow>
         get_field (DriverCurrent_ihold H) (driver_current' s') =
         take_bit (bf_width (DriverCurrent_ihold H)) (ucast setting)) \<and>
      global_config' s' = global_config' s \<and> chopper_config' s' = chopper_config' s \<and>
      pwm_config' s' = pwm_config' s) \<and>
   (\<exists>s' setting. setHoldDelay env H percent s = Some s' \<and>
      percentToHoldDelaySetting H percent = Some setting \<and>
      only_field_changed (DriverCurrent_iholddelay H) (driver_current' s) (driver_current' s') \<and>
      (separate (DriverCurrent_iholddelay H) (DriverCurrent_irun H) \<longrightarrow>
         get_field (DriverCurrent_irun H) (driver_current' s') =
         get_field (DriverCurrent_irun H) (driver_current' s)) \<and>
      (separate (DriverCurrent_iholddelay H) (DriverCurrent_ihold H) \<longrightarrow>
         get_field (DriverCurrent_ihold H) (driver_current' s') =
         get_field (DriverCurrent_ihold H) (driver_current' s)) \<and>
      (bf_shift (DriverCurrent_iholddelay H) + bf_width (DriverCurrent_iholddelay H) \<le> 32 \<longrightarrow>
         get_field (DriverCurrent_iholddelay H) (driver_current' s') =
         take_bit (bf_width (DriverCurrent_iholddelay H)) (ucast setting)) \<and>
      global_config' s' = global_config' s \<and> chopper_config' s' = chopper_config' s \<and>
      pwm_config' s' = pwm_config' s)"
proof -
  obtain rc where rc: "percentToCurrentSetting H percent = Some rc"
    using percentToCurrentSetting_Some by blast
  obtain hd where hd: "percentToHoldDelaySetting H percent = Some hd"
    using percentToHoldDelaySetting_Some by blast
  have frame: "only_field_changed f (driver_current' s) (driver_current' s') \<and>
      (separate f g \<longrightarrow>
         get_field g (driver_current' s') = get_field g (driver_current' s)) \<and>
      (separate f h \<longrightarrow>
         get_field h (driver_current' s') = get_field h (driver_current' s)) \<and>
      (bf_shift f + bf_width f \<le> 32 \<longrightarrow>
         get_field f (driver_current' s') = take_bit (bf_width f) (ucast v)) \<and>
      global_config' s' = global_config' s \<and> chopper_config' s' = chopper_config' s \<and>
      pwm_config' s' = pwm_config' s"
    if "s' = writeStoredDriverCurrent env H
         (s\<lparr>driver_current' := set_field f v (driver_current' s)\<rparr>)"
    for s' f g h and v :: uint8_t
  proof -
    have dc: "driver_current' s' = set_field f v (driver_current' s)"
      unfolding that by (simp add: writeStoredDriverCurrent_driver_current)
    have only: "only_field_changed f (driver_current' s) (driver_current' s')"
      unfolding dc by (rule set_field_only_field_changed)
    have same: "bf_shift f + bf_width f \<le> 32 \<longrightarrow>
         get_field f (driver_current' s') = take_bit (bf_width f) (ucast v)"
      unfolding dc by (simp add: get_field_set_field_same)
    have regs: "global_config' s' = global_config' s \<and> chopper_config' s' = chopper_config' s \<and>
        pwm_config' s' = pwm_config' s"
      unfolding that using writeStoredDriverCurrent_registers
        [of env H "s\<lparr>driver_current' := set_field f v (driver_current' s)\<rparr>"]
      by simp
    from only same regs show ?thesis
      by (auto dest: only_field_changed_get_field)
  qed
  have run: "setRunCurrent env H percent s = Some (writeStoredDriverCurrent env H
      (s\<lparr>driver_current' := set_field (DriverCurrent_irun H) rc (driver_current' s)\<rparr>))"
    by (simp add: setRunCurrent_def rc)
  have hold: "setHoldCurrent env H percent s = Some (writeStoredDriverCurrent env H
      (s\<lparr>driver_current' := set_field (DriverCurrent_ihold H) rc (driver_current' s)\<rparr>))"
    by (simp add: setHoldCurrent_def rc)
  have delay: "setHoldDelay env H percent s = Some (writeStoredDriverCurrent env H
      (s\<lparr>driver_current' := set_field (DriverCurrent_iholddelay H) hd (driver_current' s)\<rparr>))"
    by (simp add: setHoldDelay_def hd)
  show ?thesis
    using run hold delay rc hd
      frame [OF refl, where f = "DriverCurrent_irun H" and g = "DriverCurrent_ihold H"
        and h = "DriverCurrent_iholddelay H" and v = rc]
      frame [OF refl, where f = "DriverCurrent_ihold H" and g = "DriverCurrent_irun H"
        and h = "DriverCurrent_iholddelay H" and v = rc]
      frame [OF refl, where f = "DriverCurrent_iholddelay H" and g = "DriverCurrent_irun H"
        and h = "DriverCurrent_ihold H" and v = hd]
    by simp
qed

theorem current_setters_preserve_other_fields_witness:
  "separate (DriverCurrent_irun example_header) (DriverCurrent_ihold example_header) \<and>
   separate (DriverCurrent_irun example_header) (DriverCurrent_iholddelay example_header) \<and>
   separate (DriverCurrent_ihold example_header) (DriverCurrent_irun example_header) \<and>
   separate (DriverCurrent_ihold example_header) (DriverCurrent_iholddelay example_header) \<and>
   separate (DriverCurrent_iholddelay example_header) (DriverCurrent_irun example_header) \<and>
   separate (DriverCurrent_iholddelay example_header) (DriverCurrent_ihold example_header) \<and>
   bf_shift (DriverCurrent_irun example_header) + bf_width (DriverCurrent_irun example_header) \<le> 32 \<and>
   bf_shift (DriverCurrent_ihold example_header) + bf_width (DriverCurrent_ihold example_header) \<le> 32 \<and>
   bf_shift (DriverCurrent_iholddelay example_header) +
     bf_width (DriverCurrent_iholddelay example_header) \<le> 32 \<and>
   (\<exists>s'. setRunCurrent quiet_env example_header 50
           (example_driver\<lparr>driver_current' := 0x00071F10\<rparr>) = Some s' \<and>
      get_field (DriverCurrent_ihold example_header) (driver_current' s') = 0x10 \<and>
      get_field (DriverCurrent_iholddelay example_header) (driver_current' s') = 0x07 \<and>
      get_field (DriverCurrent_irun example_header) (driver_current' s') = 15) \<and>
   (\<exists>s'. setHoldCurrent quiet_env example_header 50
           (example_driver\<lparr>driver_current' := 0x00071F10\<rparr>) = Some s' \<and>
      get_field (DriverCurrent_irun example_header) (driver_current' s') = 0x1F \<and>
      get_field (DriverCurrent_iholddelay example_header) (driver_current' s') = 0x07 \<and>
      get_field (DriverCurrent_ihold example_header) (driver_current' s') = 15) \<and>
   (\<exists>s'. setHoldDelay quiet_env example_header 50
           (example_driver\<lparr>driver_current' := 0x00071F10\<rparr>) = Some s' \<and>
      get_field (DriverCurrent_irun example_header) (driver_current' s') = 0x1F \<and>
      get_field (DriverCurrent_ihold example_header) (driver_current' s') = 0x10 \<and>
      get_field (DriverCurrent_iholddelay example_header) (driver_current' s') = 7)"
proof -
  let ?s = "example_driver\<lparr>driver_current' := 0x00071F10\<rparr>"
  have sep: "separate (DriverCurrent_irun example_header) (DriverCurrent_ihold example_header)"
    "separate (DriverCurrent_irun example_header) (DriverCurrent_iholddelay example_header)"
    "separate (DriverCurrent_ihold example_header) (DriverCurrent_irun example_header)"
    "separate (DriverCurrent_ihold example_header) (DriverCurrent_iholddelay example_header)"
    "separate (DriverCurrent_iholddelay example_header) (DriverCurrent_irun example_header)"
    "separate (DriverCurrent_iholddelay example_header) (DriverCurrent_ihold example_header)"
    by (simp_all add: example_header_def separate_def)
  have fits: "bf_shift (DriverCurrent_irun example_header) +
      bf_width (DriverCurrent_irun example_header) \<le> 32"
    "bf_shift (DriverCurrent_ihold example_header) +
      bf_width (DriverCurrent_ihold example_header) \<le> 32"
    "bf_shift (DriverCurrent_iholddelay example_header) +
      bf_width (DriverCurrent_iholddelay example_header) \<le> 32"
    by (simp_all add: example_header_def)
  have p: "percentToCurrentSetting example_header 50 = Some 15"
    "percentToHoldDelaySetting example_header 50 = Some 7"
    by code_simp+
  have old: "get_field (DriverCurrent_ihold example_header) (driver_current' ?s) = 0x10"
    "get_field (DriverCurrent_iholddelay example_header) (driver_current' ?s) = 0x07"
    "get_field (DriverCurrent_irun example_header) (driver_current' ?s) = 0x1F"
    by (simp_all add: example_header_def example_driver_def get_field_def)
  have w: "bf_width (DriverCurrent_irun example_header) = 5"
    "bf_width (DriverCurrent_ihold example_header) = 5"
    "bf_width (DriverCurrent_iholddelay example_header) = 4"
    by (simp_all add: example_header_def)
  have t: "take_bit 5 (ucast (15 :: uint8_t) :: uint32_t) = 15"
    "take_bit 4 (ucast (7 :: uint8_t) :: uint32_t) = 7"
    by simp_all
  from current_setters_preserve_other_fields [of quiet_env example_header 50 ?s]
  show ?thesis
    unfolding p using sep fits old w t by (elim conjE exE) simp
qed

section \<open>Properties of the microstep setter\<close>

lemma setMicrostepsPerStep_loop_counts:
  "\<exists>n. setMicrostepsPerStep_loop shifted e = e + of_nat n \<and>
     unat shifted < 2 ^ n \<and> (0 < n \<longrightarrow> 2 ^ (n - 1) \<le> unat shifted)"
proof (induction shifted e rule: setMicrostepsPerStep_loop.induct)
  case (1 shifted e)
  show ?case
  proof (cases "0 < shifted")
    case False
    then have "shifted = 0" by (simp add: word_greater_zero_iff)
    then have "setMicrostepsPerStep_loop shifted e = e + of_nat 0 \<and>
        unat shifted < 2 ^ 0 \<and> (0 < (0::nat) \<longrightarrow> 2 ^ (0 - 1) \<le> unat shifted)"
      by (subst setMicrostepsPerStep_loop.simps) simp
    then show ?thesis by blast
  next
    case True
    then have pos: "0 < unat shifted" by (simp add: word_less_nat_alt)
    have half: "unat (drop_bit 1 shifted) = unat shifted div 2"
      by (simp add: drop_bit_eq_div unat_div)
    from "1.IH" [OF True] obtain n where n:
      "setMicrostepsPerStep_loop (drop_bit 1 shifted) (e + 1) = e + 1 + of_nat n"
      "unat shifted div 2 < 2 ^ n" "0 < n \<longrightarrow> 2 ^ (n - 1) \<le> unat shifted div 2"
      unfolding half by blast
    have "setMicrostepsPerStep_loop shifted e = e + of_nat (Suc n)"
      using True n(1) by (subst setMicrostepsPerStep_loop.simps) simp
    moreover have "unat shifted < 2 ^ Suc n" using n(2) by simp
    moreover have "2 ^ (Suc n - 1) \<le> unat shifted"
    proof (cases "0 < n")
      case True
      with n(3) have "2 * 2 ^ (n - 1) \<le> unat shifted" by simp
      moreover from True have "(2::nat) * 2 ^ (n - 1) = 2 ^ n"
        by (cases n) simp_all
      ultimately show ?thesis by simp
    next
      case False
      with pos show ?thesis by simp
    qed
    ultimately show ?thesis by blast
  qed
qed

lemma setMicrostepsPerStep_exponent_floor:
  "\<exists>n. setMicrostepsPerStep_exponent x = of_nat n \<and> n \<le> 15 \<and>
     (x = 0 \<longrightarrow> n = 0) \<and> (x \<noteq> 0 \<longrightarrow> 2 ^ n \<le> unat x \<and> unat x < 2 ^ (n + 1))"
proof -
  have half: "unat (drop_bit 1 x) = unat x div 2"
    by (simp add: drop_bit_eq_div unat_div)
  from setMicrostepsPerStep_loop_counts [of "drop_bit 1 x" 0] obtain n where n:
    "setMicrostepsPerStep_loop (drop_bit 1 x) 0 = of_nat n"
    "unat x div 2 < 2 ^ n" "0 < n \<longrightarrow> 2 ^ (n - 1) \<le> unat x div 2"
    unfolding half by auto
  have lt: "unat x < 2 ^ 16" using unsigned_less [of x, where ?'a = nat] by simp
  have e: "setMicrostepsPerStep_exponent x = of_nat n"
    by (simp only: setMicrostepsPerStep_exponent_def Let_def n(1))
  have up: "unat x < 2 ^ (n + 1)" using n(2) by simp
  have low: "2 ^ n \<le> unat x" if "x \<noteq> 0"
  proof (cases "0 < n")
    case True
    with n(3) have "2 * 2 ^ (n - 1) \<le> unat x" by simp
    moreover from True have "(2::nat) * 2 ^ (n - 1) = 2 ^ n" by (cases n) simp_all
    ultimately show ?thesis by simp
  next
    case False
    moreover from that have "0 < unat x" by (simp add: unat_gt_0)
    ultimately show ?thesis by simp
  qed
  have n15: "n \<le> 15"
  proof (rule ccontr)
    assume "\<not> n \<le> 15"
    then have "16 \<le> n" by simp
    then have "(2::nat) ^ 16 \<le> 2 ^ n" by (rule power_increasing) simp
    moreover have "x \<noteq> 0"
    proof
      assume "x = 0"
      with n(3) \<open>16 \<le> n\<close> show False by simp
    qed
    ultimately show False using low lt by simp
  qed
  have zero: "n = 0" if "x = 0"
  proof (rule ccontr)
    assume "n \<noteq> 0"
    with n(3) that show False by simp
  qed
  from e n15 zero low up show ?thesis by blast
qed


lemma write_TMC2209_registers:
  "chopper_config' (write_TMC2209 env H a d s) = chopper_config' s \<and>
   global_config' (write_TMC2209 env H a d s) = global_config' s \<and>
   pwm_config' (write_TMC2209 env H a d s) = pwm_config' s \<and>
   driver_current' (write_TMC2209 env H a d s) = driver_current' s \<and>
   cool_config' (write_TMC2209 env H a d s) = cool_config' s \<and>
   cool_step_enabled' (write_TMC2209 env H a d s) = cool_step_enabled' s \<and>
   serial_address' (write_TMC2209 env H a d s) = serial_address' s"
  using write_TMC2209_calls [of env H a d s] by auto

lemma setMicrostepsPerStep_selects:
  "(if (ucast (setMicrostepsPerStep_exponent x) :: uint8_t) = 0 then MRES_001 H
    else if (ucast (setMicrostepsPerStep_exponent x) :: uint8_t) = 1 then MRES_002 H
    else if (ucast (setMicrostepsPerStep_exponent x) :: uint8_t) = 2 then MRES_004 H
    else if (ucast (setMicrostepsPerStep_exponent x) :: uint8_t) = 3 then MRES_008 H
    else if (ucast (setMicrostepsPerStep_exponent x) :: uint8_t) = 4 then MRES_016 H
    else if (ucast (setMicrostepsPerStep_exponent x) :: uint8_t) = 5 then MRES_032 H
    else if (ucast (setMicrostepsPerStep_exponent x) :: uint8_t) = 6 then MRES_064 H
    else if (ucast (setMicrostepsPerStep_exponent x) :: uint8_t) = 7 then MRES_128 H
    else MRES_256 H) = mres_for_request H x"
proof -
  obtain e where e: "setMicrostepsPerStep_exponent x = of_nat e" "e \<le> 15"
    "x = 0 \<longrightarrow> e = 0" "x \<noteq> 0 \<longrightarrow> 2 ^ e \<le> unat x \<and> unat x < 2 ^ (e + 1)"
    using setMicrostepsPerStep_exponent_floor by blast
  have x0: "unat x = 0 \<longleftrightarrow> x = 0" by (simp add: unat_eq_0)
  from e(2) have "e = 15 \<or> e = 14 \<or> e = 13 \<or> e = 12 \<or> e = 11 \<or> e = 10 \<or> e = 9 \<or> e = 8 \<or>
      e = 7 \<or> e = 6 \<or> e = 5 \<or> e = 4 \<or> e = 3 \<or> e = 2 \<or> e = 1 \<or> e = 0"
    by arith
  then show ?thesis
    using e(3,4) x0 unfolding e(1) mres_for_request_def word_less_nat_alt
    by (elim disjE) (cases "x = 0"; simp)+
qed

text \<open>
  Claim C5 fails as stated: a request that is not a power of two is not taken to the nearest
  valid value. For 7 the loop counts 2 shifts (4 microsteps) where the nearest valid value is
  8, and for 200 it counts 7 (128 microsteps) where the nearest valid value is 256.
\<close>

theorem setMicrostepsPerStep_not_nearest:
  "setMicrostepsPerStep_exponent 7 = 2 \<and> spec_microsteps_exponent 7 = 3 \<and>
   setMicrostepsPerStep_exponent 200 = 7 \<and> spec_microsteps_exponent 200 = 8"
  by code_simp

text \<open>
  Claim C5, amended. \<^verbatim>\<open>setMicrostepsPerStep\<close> maps a request that is a power of two
  from 1 to 256 to the exponent 0 to 8 respectively, by counting right-shifts. A request
  that is not a power of two is rounded down: the exponent \<open>e\<close> counted for a request
  \<open>x > 0\<close> satisfies \<open>2 ^ e \<le> x < 2 ^ (e + 1)\<close>, and request 0 counts 0. The resolution
  stored in the cached chopper register is that of the largest power of two not above the
  request, that of 256 for every request of 256 or more, and that of 1 for request 0.
\<close>

theorem setMicrostepsPerStep_rounds_down:
  "(k \<le> 8 \<longrightarrow> setMicrostepsPerStep_exponent (2 ^ k) = of_nat k) \<and>
   setMicrostepsPerStep_exponent 0 = 0 \<and>
   (x \<noteq> 0 \<longrightarrow>
      2 ^ unat (setMicrostepsPerStep_exponent x) \<le> unat x \<and>
      unat x < 2 ^ (unat (setMicrostepsPerStep_exponent x) + 1)) \<and>
   chopper_config' (setMicrostepsPerStep env H x s) =
     set_field (ChopperConfig_mres H) (mres_for_request H x) (chopper_config' s)"
proof (intro conjI impI)
  obtain n where n: "setMicrostepsPerStep_exponent x = of_nat n" "n \<le> 15"
    "x = 0 \<longrightarrow> n = 0" "x \<noteq> 0 \<longrightarrow> 2 ^ n \<le> unat x \<and> unat x < 2 ^ (n + 1)"
    using setMicrostepsPerStep_exponent_floor by blast
  have un: "unat (of_nat n :: uint16_t) = n"
    using n(2) by (simp add: unat_of_nat)
  show "2 ^ unat (setMicrostepsPerStep_exponent x) \<le> unat x" if "x \<noteq> 0"
    using that n(4) by (simp add: n(1) un)
  show "unat x < 2 ^ (unat (setMicrostepsPerStep_exponent x) + 1)" if "x \<noteq> 0"
    using that n(4) by (simp add: n(1) un)
  show "setMicrostepsPerStep_exponent 0 = 0"
    using setMicrostepsPerStep_exponent_floor [of 0] by auto
  show "setMicrostepsPerStep_exponent (2 ^ k) = of_nat k" if "k \<le> 8"
  proof -
    from that have "(2::nat) ^ k \<le> 2 ^ 8" by (intro power_increasing) simp_all
    then have small: "(2::nat) ^ k < 2 ^ LENGTH(16)" by simp
    have "(2 ^ k :: uint16_t) = of_nat (2 ^ k)" by simp
    then have pk: "unat (2 ^ k :: uint16_t) = 2 ^ k"
      using small by (simp only: unat_of_nat mod_less)
    then have "0 < unat (2 ^ k :: uint16_t)" by simp
    then have nz: "(2 ^ k :: uint16_t) \<noteq> 0" using unat_gt_0 by blast
    obtain m where m: "setMicrostepsPerStep_exponent (2 ^ k) = of_nat m"
      "2 ^ m \<le> unat (2 ^ k :: uint16_t)" "unat (2 ^ k :: uint16_t) < 2 ^ (m + 1)"
      using setMicrostepsPerStep_exponent_floor [of "2 ^ k"] nz by blast
    from m(2) have "m \<le> k" unfolding pk by (simp add: power_le_imp_le_exp)
    moreover from m(3) have "(2::nat) ^ k < 2 ^ (m + 1)" unfolding pk .
    then have "k < m + 1" by (rule power_less_imp_less_exp [rotated]) simp
    ultimately have "m = k" by simp
    with m(1) show ?thesis by simp
  qed
  show "chopper_config' (setMicrostepsPerStep env H x s) =
     set_field (ChopperConfig_mres H) (mres_for_request H x) (chopper_config' s)"
    unfolding setMicrostepsPerStep_def setMicrostepsPerStepPowerOfTwo_def Let_def
      setMicrostepsPerStep_selects writeStoredChopperConfig_def
    by (simp add: write_TMC2209_registers)
qed

theorem setMicrostepsPerStep_rounds_down_witness:
  "(3::nat) \<le> 8 \<and> setMicrostepsPerStep_exponent (2 ^ 3) = 3 \<and> (7::uint16_t) \<noteq> 0 \<and>
   2 ^ unat (setMicrostepsPerStep_exponent 7) \<le> unat (7::uint16_t) \<and>
   unat (7::uint16_t) < 2 ^ (unat (setMicrostepsPerStep_exponent 7) + 1) \<and>
   setMicrostepsPerStep_exponent 7 = 2 \<and>
   mres_for_request example_header 7 = MRES_004 example_header \<and>
   chopper_config' (setMicrostepsPerStep quiet_env example_header 7 example_driver) =
     set_field (ChopperConfig_mres example_header) (MRES_004 example_header)
       (chopper_config' example_driver)"
proof -
  have e: "setMicrostepsPerStep_exponent 7 = 2" by code_simp
  have m: "mres_for_request example_header 7 = MRES_004 example_header"
    by (simp add: mres_for_request_def)
  from setMicrostepsPerStep_rounds_down [of 3 7 quiet_env example_header example_driver]
  show ?thesis unfolding m using e by simp
qed

section \<open>Properties of read transactions\<close>

lemma clear_receive_buffer_returns:
  "\<not> rxne_flag env (length (hal_calls s) + 2 * k) \<Longrightarrow> \<exists>s1. clear_receive_buffer env s = Some s1"
proof (induction k arbitrary: s)
  case 0
  then show ?case
    by (subst clear_receive_buffer.simps) (simp add: HAL_UART_GET_FLAG_RXNE_def)
next
  case (Suc k)
  show ?case
  proof (cases "rxne_flag env (length (hal_calls s))")
    case False
    then show ?thesis
      by (subst clear_receive_buffer.simps) (simp add: HAL_UART_GET_FLAG_RXNE_def)
  next
    case True
    let ?s2 = "log_call (UART_Receive 1 0) (log_call UART_GET_FLAG_RXNE s)"
    have "\<not> rxne_flag env (length (hal_calls ?s2) + 2 * k)"
      using Suc.prems by (simp add: log_call_update)
    then have "\<exists>s1. clear_receive_buffer env ?s2 = Some s1" by (rule Suc.IH)
    moreover have "clear_receive_buffer env s = clear_receive_buffer env ?s2"
      using True
      by (subst clear_receive_buffer.simps)
         (simp add: HAL_UART_GET_FLAG_RXNE_def HAL_UART_Receive_def)
    ultimately show ?thesis by simp
  qed
qed

lemma clear_receive_buffer_calls:
  assumes "clear_receive_buffer env s = Some s1"
  shows "\<exists>cs. s1 = s\<lparr>hal_calls := hal_calls s @ cs\<rparr> \<and> transmitted_bytes cs = []"
proof (rule clear_receive_buffer.raw_induct
    [where P = "\<lambda>env s s1. \<exists>cs. s1 = s\<lparr>hal_calls := hal_calls s @ cs\<rparr> \<and>
       transmitted_bytes cs = []", OF _ assms])
  fix crb :: "hal_env \<Rightarrow> TMC2209 \<Rightarrow> TMC2209 option" and env s s1
  assume IH: "\<And>e t y. crb e t = Some y \<Longrightarrow>
      \<exists>cs. y = t\<lparr>hal_calls := hal_calls t @ cs\<rparr> \<and> transmitted_bytes cs = []"
    and eq: "(if fst (HAL_UART_GET_FLAG_RXNE env s)
      then crb env (snd (snd (HAL_UART_Receive env 1 0 (snd (HAL_UART_GET_FLAG_RXNE env s)))))
      else Some (snd (HAL_UART_GET_FLAG_RXNE env s))) = Some s1"
  show "\<exists>cs. s1 = s\<lparr>hal_calls := hal_calls s @ cs\<rparr> \<and> transmitted_bytes cs = []"
  proof (cases "rxne_flag env (length (hal_calls s))")
    case False
    with eq have "s1 = s\<lparr>hal_calls := hal_calls s @ [UART_GET_FLAG_RXNE]\<rparr>"
      by (simp add: HAL_UART_GET_FLAG_RXNE_def log_call_update)
    moreover have "transmitted_bytes [UART_GET_FLAG_RXNE] = []" by simp
    ultimately show ?thesis by blast
  next
    case True
    let ?s2 = "log_call (UART_Receive 1 0) (log_call UART_GET_FLAG_RXNE s)"
    from True eq have "crb env ?s2 = Some s1"
      by (simp add: HAL_UART_GET_FLAG_RXNE_def HAL_UART_Receive_def)
    from IH [OF this] obtain cs where cs:
      "s1 = ?s2\<lparr>hal_calls := hal_calls ?s2 @ cs\<rparr>" "transmitted_bytes cs = []"
      by blast
    have "s1 = s\<lparr>hal_calls := hal_calls s @ ([UART_GET_FLAG_RXNE, UART_Receive 1 0] @ cs)\<rparr>"
      unfolding cs(1) by (simp add: log_call_update)
    moreover have "transmitted_bytes ([UART_GET_FLAG_RXNE, UART_Receive 1 0] @ cs) = []"
      by (simp add: cs(2))
    ultimately show ?thesis by blast
  qed
qed

lemma sendDatagramBidirectional_loop_fails_at:
  assumes "i \<le> k" and "k < unat n"
    and "\<forall>j. i \<le> j \<and> j < k \<longrightarrow> transmit_status env (length (hal_calls s) + (j - i)) = HAL_OK"
    and "transmit_status env (length (hal_calls s) + (k - i)) \<noteq> HAL_OK"
  shows "sendDatagramBidirectional_loop env i d n s =
     (False, s\<lparr>hal_calls := hal_calls s @
        map (\<lambda>j. UART_Transmit (datagram_byte d j) 100) [i..<Suc k] @
        [GPIO_WritePin_GPIOA_PIN_5_SET]\<rparr>)"
  using assms
proof (induction "k - i" arbitrary: i s)
  case 0
  then have ik: "i = k" by simp
  with 0 show ?case
    by (subst sendDatagramBidirectional_loop.simps)
       (simp add: HAL_UART_Transmit_def log_call_update)
next
  case (Suc m)
  then have lt: "i < k" "i < unat n" by simp_all
  let ?s1 = "log_call (UART_Transmit (datagram_byte d i) 100) s"
  have ok: "transmit_status env (length (hal_calls s)) = HAL_OK"
    using Suc.prems(3) lt(1) by (metis diff_self_eq_0 add.right_neutral order_refl)
  have step: "sendDatagramBidirectional_loop env i d n s =
      sendDatagramBidirectional_loop env (Suc i) d n ?s1"
    using lt(2) ok
    by (subst sendDatagramBidirectional_loop.simps) (simp add: HAL_UART_Transmit_def)
  have len: "length (hal_calls ?s1) = Suc (length (hal_calls s))"
    by (simp add: log_call_update)
  have "sendDatagramBidirectional_loop env (Suc i) d n ?s1 =
     (False, ?s1\<lparr>hal_calls := hal_calls ?s1 @
        map (\<lambda>j. UART_Transmit (datagram_byte d j) 100) [Suc i..<Suc k] @
        [GPIO_WritePin_GPIOA_PIN_5_SET]\<rparr>)"
  proof (rule Suc.hyps(1))
    show "m = k - Suc i" using Suc.hyps(2) by simp
    show "Suc i \<le> k" using lt(1) by simp
    show "k < unat n" by (rule Suc.prems(2))
    show "\<forall>j. Suc i \<le> j \<and> j < k \<longrightarrow>
        transmit_status env (length (hal_calls ?s1) + (j - Suc i)) = HAL_OK"
    proof (intro allI impI)
      fix j assume j: "Suc i \<le> j \<and> j < k"
      then have "transmit_status env (length (hal_calls s) + (j - i)) = HAL_OK"
        using Suc.prems(3) by simp
      moreover from j have "length (hal_calls ?s1) + (j - Suc i) = length (hal_calls s) + (j - i)"
        unfolding len by linarith
      ultimately show "transmit_status env (length (hal_calls ?s1) + (j - Suc i)) = HAL_OK"
        by simp
    qed
    show "transmit_status env (length (hal_calls ?s1) + (k - Suc i)) \<noteq> HAL_OK"
    proof -
      from lt(1) have "length (hal_calls ?s1) + (k - Suc i) = length (hal_calls s) + (k - i)"
        unfolding len by linarith
      with Suc.prems(4) show ?thesis by simp
    qed
  qed
  also have "?s1\<lparr>hal_calls := hal_calls ?s1 @
        map (\<lambda>j. UART_Transmit (datagram_byte d j) 100) [Suc i..<Suc k] @
        [GPIO_WritePin_GPIOA_PIN_5_SET]\<rparr> =
      s\<lparr>hal_calls := hal_calls s @
        map (\<lambda>j. UART_Transmit (datagram_byte d j) 100) [i..<Suc k] @
        [GPIO_WritePin_GPIOA_PIN_5_SET]\<rparr>"
    using lt(1) by (simp add: log_call_update upt_conv_Cons [of i])
  finally show ?case unfolding step .
qed

lemma sendDatagramBidirectional_loop_calls:
  "\<exists>cs. snd (sendDatagramBidirectional_loop env i d n s) = s\<lparr>hal_calls := hal_calls s @ cs\<rparr>"
proof (induction env i d n s rule: sendDatagramBidirectional_loop.induct)
  case (1 env i d n s)
  let ?s1 = "log_call (UART_Transmit (datagram_byte d i) 100) s"
  have tx: "HAL_UART_Transmit env (datagram_byte d i) 100 s =
      (transmit_status env (length (hal_calls s)), ?s1)"
    by (simp add: HAL_UART_Transmit_def)
  consider (finished) "\<not> i < unat n"
    | (fail) "i < unat n" "transmit_status env (length (hal_calls s)) \<noteq> HAL_OK"
    | (ok) "i < unat n" "transmit_status env (length (hal_calls s)) = HAL_OK"
    by blast
  then show ?case
  proof cases
    case finished
    then have "snd (sendDatagramBidirectional_loop env i d n s) = s\<lparr>hal_calls := hal_calls s @ []\<rparr>"
      by (subst sendDatagramBidirectional_loop.simps) simp
    then show ?thesis by blast
  next
    case fail
    then have "snd (sendDatagramBidirectional_loop env i d n s) =
        s\<lparr>hal_calls := hal_calls s @
          [UART_Transmit (datagram_byte d i) 100, GPIO_WritePin_GPIOA_PIN_5_SET]\<rparr>"
      by (subst sendDatagramBidirectional_loop.simps) (simp add: tx log_call_update)
    then show ?thesis by blast
  next
    case ok
    have "\<exists>cs. snd (sendDatagramBidirectional_loop env (i + 1) d n ?s1) =
        ?s1\<lparr>hal_calls := hal_calls ?s1 @ cs\<rparr>"
      by (rule "1.IH" [OF ok(1) refl refl tx [symmetric]]) (simp add: ok(2))
    then obtain cs where cs: "snd (sendDatagramBidirectional_loop env (i + 1) d n ?s1) =
        ?s1\<lparr>hal_calls := hal_calls ?s1 @ cs\<rparr>"
      by blast
    have "snd (sendDatagramBidirectional_loop env i d n s) =
        ?s1\<lparr>hal_calls := hal_calls ?s1 @ cs\<rparr>"
      using ok cs by (subst sendDatagramBidirectional_loop.simps) (simp add: tx)
    also have "\<dots> = s\<lparr>hal_calls := hal_calls s @ (UART_Transmit (datagram_byte d i) 100 # cs)\<rparr>"
      by (simp add: log_call_update)
    finally show ?thesis by blast
  qed
qed


lemma sendDatagramBidirectional_calls:
  assumes "sendDatagramBidirectional env H d n s = Some s1"
  shows "\<exists>cs. s1 = s\<lparr>hal_calls := hal_calls s @ cs\<rparr>"
proof -
  from assms obtain s0 where s0: "clear_receive_buffer env s = Some s0"
    by (auto simp add: sendDatagramBidirectional_def split: bind_splits)
  from clear_receive_buffer_calls [OF s0] obtain c0 where c0:
    "s0 = s\<lparr>hal_calls := hal_calls s @ c0\<rparr>" by blast
  obtain completed s2 where l: "sendDatagramBidirectional_loop env 0 d n s0 = (completed, s2)"
    by (cases "sendDatagramBidirectional_loop env 0 d n s0")
  from sendDatagramBidirectional_loop_calls [of env 0 d n s0] l obtain c2 where c2:
    "s2 = s0\<lparr>hal_calls := hal_calls s0 @ c2\<rparr>" by auto
  show ?thesis
  proof (cases completed)
    case False
    with assms s0 l have "s1 = s2" by (simp add: sendDatagramBidirectional_def)
    then have "s1 = s\<lparr>hal_calls := hal_calls s @ (c0 @ c2)\<rparr>" by (simp add: c2 c0)
    then show ?thesis by blast
  next
    case True
    with assms s0 l have "s1 = log_call (UART_Receive (unat n)
        (unat (ECHO_DELAY_MAX_MICROSECONDS H div 1000))) s2"
      by (simp add: sendDatagramBidirectional_def HAL_UART_Receive_def)
    then have "s1 = s\<lparr>hal_calls := hal_calls s @ (c0 @ c2 @ [UART_Receive (unat n)
        (unat (ECHO_DELAY_MAX_MICROSECONDS H div 1000))])\<rparr>"
      by (simp add: c2 c0 log_call_update)
    then show ?thesis by blast
  qed
qed

lemma sendDatagramBidirectional_returns:
  assumes "receive_flag_clears env s"
  shows "\<exists>s1. sendDatagramBidirectional env H d n s = Some s1"
proof -
  from assms obtain s0 where s0: "clear_receive_buffer env s = Some s0"
    unfolding receive_flag_clears_def using clear_receive_buffer_returns by blast
  obtain completed s2 where l: "sendDatagramBidirectional_loop env 0 d n s0 = (completed, s2)"
    by (cases "sendDatagramBidirectional_loop env 0 d n s0")
  show ?thesis
    by (cases completed)
       (simp_all add: sendDatagramBidirectional_def s0 l HAL_UART_Receive_def)
qed

text \<open>What \<^verbatim>\<open>read\<close> does once \<^verbatim>\<open>sendDatagramBidirectional\<close> has returned.\<close>

lemma read_after_send:
  assumes "sendDatagramBidirectional env H
      (read_request_datagram H (serial_address' s) a) (READ_REQUEST_DATAGRAM_SIZE H) s = Some s1"
  shows "read env H a s =
     Some (if receive_status env (length (hal_calls s1)) \<noteq> HAL_OK then 0
           else reverseData (ucast (get_field (WriteReadReplyDatagram_data H)
                  (read_reply_loop H 0 (receive_buffer env (length (hal_calls s1))) 0))),
           log_call (UART_Receive (unat (WRITE_READ_REPLY_DATAGRAM_SIZE H))
             (unat (REPLY_DELAY_MAX_MICROSECONDS H div 1000))) s1)"
  by (simp add: read_def assms HAL_UART_Receive_def Let_def)

lemma read_Some_send:
  assumes "read env H a s = Some (v, s')"
  obtains s1 where "sendDatagramBidirectional env H
      (read_request_datagram H (serial_address' s) a) (READ_REQUEST_DATAGRAM_SIZE H) s = Some s1"
  using assms by (auto simp add: read_def split: bind_splits)

lemma read_reply_loop_zero: "read_reply_loop H i (\<lambda>j. 0) 0 = 0"
proof (induction H i "\<lambda>j::nat. (0::uint8_t)" "0::uint64_t" rule: read_reply_loop.induct)
  case (1 H i)
  then show ?case
    by (subst read_reply_loop.simps) simp
qed

lemma reverseData_0: "reverseData 0 = 0"
  by (simp add: reverseData_unfold)

lemma get_field_0: "get_field f 0 = 0"
  by (simp add: get_field_def)

text \<open>
  Claim C4. For every register address, header, link behaviour and driver state: when the
  receive of the reply datagram, the last HAL call of \<^verbatim>\<open>read\<close>, returns a status other
  than \<^verbatim>\<open>HAL_OK\<close> (a timeout or any other failure), \<^verbatim>\<open>read\<close> returns 0; it returns
  a value, and no fault, whenever the receive flag reads clear at some round of the initial
  drain loop; and it also returns 0 when that receive succeeds and delivers only zero bytes,
  so the caller cannot tell the two apart.
\<close>

theorem read_timeout_returns_zero:
  "(read env H register_address s = Some (v, s') \<longrightarrow>
      receive_status env (length (hal_calls s') - 1) \<noteq> HAL_OK \<longrightarrow> v = 0) \<and>
   (read env H register_address s = Some (v, s') \<longrightarrow>
      (\<exists>calls. hal_calls s' = calls @
         [UART_Receive (unat (WRITE_READ_REPLY_DATAGRAM_SIZE H))
            (unat (REPLY_DELAY_MAX_MICROSECONDS H div 1000))])) \<and>
   (receive_flag_clears env s \<longrightarrow> (\<exists>v s'. read env H register_address s = Some (v, s'))) \<and>
   (read env H register_address s = Some (v, s') \<longrightarrow>
      receive_status env (length (hal_calls s') - 1) = HAL_OK \<longrightarrow>
      (\<forall>i. receive_buffer env (length (hal_calls s') - 1) i = 0) \<longrightarrow> v = 0)"
proof (intro conjI impI)
  let ?rx = "UART_Receive (unat (WRITE_READ_REPLY_DATAGRAM_SIZE H))
      (unat (REPLY_DELAY_MAX_MICROSECONDS H div 1000))"
  have shape: "\<exists>s1. s' = log_call ?rx s1 \<and>
      v = (if receive_status env (length (hal_calls s1)) \<noteq> HAL_OK then 0
           else reverseData (ucast (get_field (WriteReadReplyDatagram_data H)
                  (read_reply_loop H 0 (receive_buffer env (length (hal_calls s1))) 0))))"
    if "read env H register_address s = Some (v, s')"
  proof -
    from that obtain s1 where s1: "sendDatagramBidirectional env H
        (read_request_datagram H (serial_address' s) register_address)
        (READ_REQUEST_DATAGRAM_SIZE H) s = Some s1"
      by (rule read_Some_send)
    from read_after_send [OF s1] that show ?thesis by auto
  qed
  show "v = 0"
    if "read env H register_address s = Some (v, s')"
      and "receive_status env (length (hal_calls s') - 1) \<noteq> HAL_OK"
    using shape [OF that(1)] that(2) by (auto simp add: log_call_update)
  show "\<exists>calls. hal_calls s' = calls @ [?rx]"
    if "read env H register_address s = Some (v, s')"
    using shape [OF that] by (auto simp add: log_call_update)
  show "\<exists>v s'. read env H register_address s = Some (v, s')"
    if "receive_flag_clears env s"
  proof -
    from sendDatagramBidirectional_returns [OF that] obtain s1 where
      "sendDatagramBidirectional env H
        (read_request_datagram H (serial_address' s) register_address)
        (READ_REQUEST_DATAGRAM_SIZE H) s = Some s1"
      by blast
    from read_after_send [OF this] show ?thesis by blast
  qed
  show "v = 0"
    if "read env H register_address s = Some (v, s')"
      and "receive_status env (length (hal_calls s') - 1) = HAL_OK"
      and "\<forall>i. receive_buffer env (length (hal_calls s') - 1) i = 0"
  proof -
    from shape [OF that(1)] obtain s1 where s1: "s' = log_call ?rx s1"
      "v = (if receive_status env (length (hal_calls s1)) \<noteq> HAL_OK then 0
           else reverseData (ucast (get_field (WriteReadReplyDatagram_data H)
                  (read_reply_loop H 0 (receive_buffer env (length (hal_calls s1))) 0))))"
      by blast
    have len: "length (hal_calls s') - 1 = length (hal_calls s1)"
      by (simp add: s1(1) log_call_update)
    from that(3) have "receive_buffer env (length (hal_calls s1)) = (\<lambda>j. 0)"
      unfolding len by (intro ext) simp
    then show ?thesis
      by (simp add: s1(2) read_reply_loop_zero get_field_0 reverseData_0)
  qed
qed

theorem read_timeout_returns_zero_witness:
  "receive_flag_clears dead_env example_driver \<and>
   (\<exists>s'. read dead_env example_header 0x06 example_driver = Some (0, s') \<and>
      receive_status dead_env (length (hal_calls s') - 1) \<noteq> HAL_OK) \<and>
   (\<exists>s'. read quiet_env example_header 0x06 example_driver = Some (0, s') \<and>
      receive_status quiet_env (length (hal_calls s') - 1) = HAL_OK \<and>
      (\<forall>i. receive_buffer quiet_env (length (hal_calls s') - 1) i = 0))"
proof -
  have clears: "receive_flag_clears dead_env example_driver"
    "receive_flag_clears quiet_env example_driver"
    by (simp_all add: receive_flag_clears_def dead_env_def quiet_env_def)
  have st: "\<And>k. receive_status dead_env k \<noteq> HAL_OK" "\<And>k. receive_status quiet_env k = HAL_OK"
    "\<And>k i. receive_buffer quiet_env k i = 0"
    by (simp_all add: dead_env_def quiet_env_def)
  from read_timeout_returns_zero [of dead_env example_header "0x06" example_driver] clears(1)
  obtain v s' where r: "read dead_env example_header 0x06 example_driver = Some (v, s')"
    by blast
  with read_timeout_returns_zero [of dead_env example_header "0x06" example_driver v s'] st(1)
  have "v = 0" by blast
  with r st(1) have a: "\<exists>s'. read dead_env example_header 0x06 example_driver = Some (0, s') \<and>
      receive_status dead_env (length (hal_calls s') - 1) \<noteq> HAL_OK"
    by blast
  from read_timeout_returns_zero [of quiet_env example_header "0x06" example_driver] clears(2)
  obtain w t' where q: "read quiet_env example_header 0x06 example_driver = Some (w, t')"
    by blast
  with read_timeout_returns_zero [of quiet_env example_header "0x06" example_driver w t'] st(2,3)
  have "w = 0" by blast
  with q st(2,3) have b: "\<exists>s'. read quiet_env example_header 0x06 example_driver = Some (0, s') \<and>
      receive_status quiet_env (length (hal_calls s') - 1) = HAL_OK \<and>
      (\<forall>i. receive_buffer quiet_env (length (hal_calls s') - 1) i = 0)"
    by blast
  from clears(1) a b show ?thesis by blast
qed

text \<open>
  Claim C2 fails as stated. On a link where the transmit of the first byte of the read request
  fails, \<^verbatim>\<open>read\<close> does go on to the receive of the reply datagram (8 bytes, timeout 10),
  and when that receive delivers bytes it returns their payload, no failure: the log shows
  the failed transmit, the pin write, and then the receive.
\<close>

theorem read_receives_after_transmit_failure:
  "transmit_status deaf_env 1 = HAL_ERROR \<and>
   read deaf_env example_header 0x06 example_driver =
     Some (0x21000000,
       example_driver\<lparr>hal_calls :=
         [UART_GET_FLAG_RXNE, UART_Transmit 0x05 100, GPIO_WritePin_GPIOA_PIN_5_SET,
          UART_Receive 8 10]\<rparr>)"
  by code_simp

text \<open>
  Claim C2, amended. In a read transaction, if the transmission of a byte of the read-request
  datagram fails (after the bytes before it went out), the transmit phase aborts at once:
  pin 5 of port A is set, no further byte is transmitted and the echo is not received. The
  reply receive is still attempted, once: \<^verbatim>\<open>read\<close> returns 0 if that receive fails and
  the byte-reversed payload of the received bytes if it succeeds.
\<close>

theorem read_aborts_transmission_only:
  "clear_receive_buffer env s = Some s1 \<longrightarrow>
   k < unat (READ_REQUEST_DATAGRAM_SIZE H) \<longrightarrow>
   (\<forall>j<k. transmit_status env (length (hal_calls s1) + j) = HAL_OK) \<longrightarrow>
   transmit_status env (length (hal_calls s1) + k) \<noteq> HAL_OK \<longrightarrow>
   read env H register_address s =
     Some (if receive_status env (length (hal_calls s1) + k + 2) \<noteq> HAL_OK then 0
           else reverseData (ucast (get_field (WriteReadReplyDatagram_data H)
                  (read_reply_loop H 0 (receive_buffer env (length (hal_calls s1) + k + 2)) 0))),
           s1\<lparr>hal_calls := hal_calls s1 @
             map (\<lambda>j. UART_Transmit
                    (datagram_byte (read_request_datagram H (serial_address' s) register_address) j)
                    100) [0..<Suc k] @
             [GPIO_WritePin_GPIOA_PIN_5_SET,
              UART_Receive (unat (WRITE_READ_REPLY_DATAGRAM_SIZE H))
                (unat (REPLY_DELAY_MAX_MICROSECONDS H div 1000))]\<rparr>)"
proof (intro impI)
  let ?d = "read_request_datagram H (serial_address' s) register_address"
  let ?n = "READ_REQUEST_DATAGRAM_SIZE H"
  let ?tx = "map (\<lambda>j. UART_Transmit (datagram_byte ?d j) 100) [0..<Suc k]"
  assume clear: "clear_receive_buffer env s = Some s1"
    and k: "k < unat ?n"
    and ok: "\<forall>j<k. transmit_status env (length (hal_calls s1) + j) = HAL_OK"
    and fail: "transmit_status env (length (hal_calls s1) + k) \<noteq> HAL_OK"
  let ?s2 = "s1\<lparr>hal_calls := hal_calls s1 @ ?tx @ [GPIO_WritePin_GPIOA_PIN_5_SET]\<rparr>"
  have loop: "sendDatagramBidirectional_loop env 0 ?d ?n s1 = (False, ?s2)"
    using k ok fail by (intro sendDatagramBidirectional_loop_fails_at) simp_all
  have send: "sendDatagramBidirectional env H ?d ?n s = Some ?s2"
    by (simp add: sendDatagramBidirectional_def clear loop)
  have len: "length (hal_calls ?s2) = length (hal_calls s1) + k + 2" by simp
  show "read env H register_address s =
     Some (if receive_status env (length (hal_calls s1) + k + 2) \<noteq> HAL_OK then 0
           else reverseData (ucast (get_field (WriteReadReplyDatagram_data H)
                  (read_reply_loop H 0 (receive_buffer env (length (hal_calls s1) + k + 2)) 0))),
           s1\<lparr>hal_calls := hal_calls s1 @ ?tx @
             [GPIO_WritePin_GPIOA_PIN_5_SET,
              UART_Receive (unat (WRITE_READ_REPLY_DATAGRAM_SIZE H))
                (unat (REPLY_DELAY_MAX_MICROSECONDS H div 1000))]\<rparr>)"
    unfolding read_after_send [OF send] len by (simp add: log_call_update)
qed

theorem read_aborts_transmission_only_witness:
  "clear_receive_buffer flaky_env example_driver =
     Some (example_driver\<lparr>hal_calls := [UART_GET_FLAG_RXNE]\<rparr>) \<and>
   1 < unat (READ_REQUEST_DATAGRAM_SIZE example_header) \<and>
   transmit_status flaky_env 1 = HAL_OK \<and>
   transmit_status flaky_env 2 \<noteq> HAL_OK \<and>
   receive_status flaky_env 4 \<noteq> HAL_OK \<and>
   read flaky_env example_header 0x06 example_driver =
     Some (0, example_driver\<lparr>hal_calls :=
       [UART_GET_FLAG_RXNE,
        UART_Transmit (datagram_byte
          (read_request_datagram example_header (serial_address' example_driver) 0x06) 0) 100,
        UART_Transmit (datagram_byte
          (read_request_datagram example_header (serial_address' example_driver) 0x06) 1) 100,
        GPIO_WritePin_GPIOA_PIN_5_SET, UART_Receive 8 10]\<rparr>)"
proof -
  let ?s1 = "example_driver\<lparr>hal_calls := [UART_GET_FLAG_RXNE]\<rparr>"
  have clear: "clear_receive_buffer flaky_env example_driver = Some ?s1"
    by (subst clear_receive_buffer.simps)
       (simp add: HAL_UART_GET_FLAG_RXNE_def flaky_env_def example_driver_def log_call_update)
  have k: "1 < unat (READ_REQUEST_DATAGRAM_SIZE example_header)"
    by (simp add: example_header_def)
  have st: "transmit_status flaky_env 1 = HAL_OK" "transmit_status flaky_env 2 \<noteq> HAL_OK"
    "receive_status flaky_env 4 \<noteq> HAL_OK"
    by (simp_all add: flaky_env_def)
  have len: "length (hal_calls ?s1) = 1" by simp
  have ok: "\<forall>j<1. transmit_status flaky_env (length (hal_calls ?s1) + j) = HAL_OK"
    by (simp add: flaky_env_def)
  have fail: "transmit_status flaky_env (length (hal_calls ?s1) + 1) \<noteq> HAL_OK"
    by (simp add: flaky_env_def)
  have rx: "receive_status flaky_env (length (hal_calls ?s1) + 1 + 2) \<noteq> HAL_OK"
    by (simp add: flaky_env_def)
  have sizes: "unat (WRITE_READ_REPLY_DATAGRAM_SIZE example_header) = 8"
    "unat (REPLY_DELAY_MAX_MICROSECONDS example_header div 1000) = 10"
    by (simp_all add: example_header_def)
  have upt: "[0..<Suc 1] = [0, 1]" by (simp add: upt_conv_Cons)
  from read_aborts_transmission_only
    [of flaky_env example_driver ?s1 1 example_header "0x06"] clear k ok fail
  have "read flaky_env example_header 0x06 example_driver =
     Some (if receive_status flaky_env (length (hal_calls ?s1) + 1 + 2) \<noteq> HAL_OK then 0
           else reverseData (ucast (get_field (WriteReadReplyDatagram_data example_header)
                  (read_reply_loop example_header 0
                     (receive_buffer flaky_env (length (hal_calls ?s1) + 1 + 2)) 0))),
           ?s1\<lparr>hal_calls := hal_calls ?s1 @
             map (\<lambda>j. UART_Transmit
                    (datagram_byte (read_request_datagram example_header
                       (serial_address' example_driver) 0x06) j) 100) [0..<Suc 1] @
             [GPIO_WritePin_GPIOA_PIN_5_SET,
              UART_Receive (unat (WRITE_READ_REPLY_DATAGRAM_SIZE example_header))
                (unat (REPLY_DELAY_MAX_MICROSECONDS example_header div 1000))]\<rparr>)"
    by blast
  then have "read flaky_env example_header 0x06 example_driver =
     Some (0, example_driver\<lparr>hal_calls :=
       [UART_GET_FLAG_RXNE,
        UART_Transmit (datagram_byte
          (read_request_datagram example_header (serial_address' example_driver) 0x06) 0) 100,
        UART_Transmit (datagram_byte
          (read_request_datagram example_header (serial_address' example_driver) 0x06) 1) 100,
        GPIO_WritePin_GPIOA_PIN_5_SET, UART_Receive 8 10]\<rparr>)"
    unfolding upt sizes using rx by simp
  with clear k st show ?thesis by blast
qed

section \<open>Properties of \<^verbatim>\<open>getSettings\<close>\<close>

lemma read_calls:
  assumes "read env H a s = Some (v, s')"
  shows "\<exists>cs. s' = s\<lparr>hal_calls := hal_calls s @ cs\<rparr>"
proof -
  from assms obtain s1 where s1: "sendDatagramBidirectional env H
      (read_request_datagram H (serial_address' s) a) (READ_REQUEST_DATAGRAM_SIZE H) s = Some s1"
    by (rule read_Some_send)
  from sendDatagramBidirectional_calls [OF s1] obtain cs where cs:
    "s1 = s\<lparr>hal_calls := hal_calls s @ cs\<rparr>" by blast
  from read_after_send [OF s1] assms have "s' =
      log_call (UART_Receive (unat (WRITE_READ_REPLY_DATAGRAM_SIZE H))
        (unat (REPLY_DELAY_MAX_MICROSECONDS H div 1000))) s1"
    by simp
  then have "s' = s\<lparr>hal_calls := hal_calls s @ (cs @
      [UART_Receive (unat (WRITE_READ_REPLY_DATAGRAM_SIZE H))
        (unat (REPLY_DELAY_MAX_MICROSECONDS H div 1000))])\<rparr>"
    by (simp add: cs log_call_update)
  then show ?thesis by blast
qed

lemma getSettings_not_communicating:
  assumes r: "read env H (ADDRESS_IOIN H) s = Some (input, s1)"
    and v: "ucast (get_field (Input_version H) input) \<noteq> VERSION H"
  shows "isCommunicating env H s = Some (False, s1)"
    and "getSettings env H s =
       Some (not_communicating_settings
               (ucast (get_field (PwmConfig_freewheel H) (pwm_config' s))), s1)"
proof -
  from read_calls [OF r] have pwm: "pwm_config' s1 = pwm_config' s" by auto
  show c: "isCommunicating env H s = Some (False, s1)"
    using v by (simp add: isCommunicating_def getVersion_def r)
  show "getSettings env H s =
       Some (not_communicating_settings
               (ucast (get_field (PwmConfig_freewheel H) (pwm_config' s))), s1)"
    by (simp add: getSettings_def c not_communicating_settings_def pwm)
qed

lemma read_dead_example:
  "read dead_env example_header (ADDRESS_IOIN example_header)
     (example_driver\<lparr>pwm_config' := 0x100000\<rparr>) =
     Some (0, example_driver\<lparr>pwm_config' := 0x100000,
       hal_calls := [UART_GET_FLAG_RXNE, UART_Transmit 0x05 100,
         GPIO_WritePin_GPIOA_PIN_5_SET, UART_Receive 8 10]\<rparr>)"
  by code_simp

lemma version_example:
  "(ucast (get_field (Input_version example_header) (0 :: uint32_t)) :: uint8_t) \<noteq>
     VERSION example_header"
  by (simp add: get_field_0 example_header_def)

lemma freewheel_example:
  "(ucast (get_field (PwmConfig_freewheel example_header) (0x100000 :: uint32_t)) :: uint8_t) = 1"
  by (simp add: example_header_def get_field_def)

lemma pwm_config_example: "pwm_config' (example_driver\<lparr>pwm_config' := 0x100000\<rparr>) = 0x100000"
  by simp

text \<open>
  Claim C7 fails as stated. For a chip that does not answer, \<^verbatim>\<open>getSettings\<close> reports the
  cached \<^verbatim>\<open>pwm_config_.freewheel\<close> as \<^verbatim>\<open>standstill_mode\<close>: with the field cached
  as 1 the report is 1, not a zero default.
\<close>

theorem getSettings_reports_cached_standstill_mode:
  "map_option (\<lambda>(settings, s'). (is_communicating settings, standstill_mode settings))
     (getSettings dead_env example_header (example_driver\<lparr>pwm_config' := 0x100000\<rparr>)) =
   Some (False, 1)"
  using getSettings_not_communicating(2) [OF read_dead_example version_example]
  by (simp add: freewheel_example not_communicating_settings_def)

text \<open>
  Claim C7, amended. When the read of the identification register returns a value whose
  version field is not the expected version, \<^verbatim>\<open>getSettings\<close> makes no further HAL call
  (it ends in the state that read ended in) and reports every settings field as
  \<^verbatim>\<open>false\<close> or 0, except \<^verbatim>\<open>standstill_mode\<close>, which is the cached
  \<^verbatim>\<open>pwm_config_.freewheel\<close>.
\<close>

theorem getSettings_without_communication:
  "read env H (ADDRESS_IOIN H) s = Some (input, s1) \<longrightarrow>
   ucast (get_field (Input_version H) input) \<noteq> VERSION H \<longrightarrow>
     isCommunicating env H s = Some (False, s1) \<and>
     getSettings env H s =
       Some (not_communicating_settings
               (ucast (get_field (PwmConfig_freewheel H) (pwm_config' s))), s1)"
  using getSettings_not_communicating by blast

theorem getSettings_without_communication_witness:
  "read dead_env example_header (ADDRESS_IOIN example_header)
     (example_driver\<lparr>pwm_config' := 0x100000\<rparr>) =
     Some (0, example_driver\<lparr>pwm_config' := 0x100000,
       hal_calls := [UART_GET_FLAG_RXNE, UART_Transmit 0x05 100,
         GPIO_WritePin_GPIOA_PIN_5_SET, UART_Receive 8 10]\<rparr>) \<and>
   (ucast (get_field (Input_version example_header) (0 :: uint32_t)) :: uint8_t) \<noteq>
     VERSION example_header \<and>
   getSettings dead_env example_header (example_driver\<lparr>pwm_config' := 0x100000\<rparr>) =
     Some (not_communicating_settings 1,
       example_driver\<lparr>pwm_config' := 0x100000,
         hal_calls := [UART_GET_FLAG_RXNE, UART_Transmit 0x05 100,
           GPIO_WritePin_GPIOA_PIN_5_SET, UART_Receive 8 10]\<rparr>)"
proof -
  let ?s = "example_driver\<lparr>pwm_config' := 0x100000\<rparr>"
  let ?s1 = "example_driver\<lparr>pwm_config' := 0x100000,
       hal_calls := [UART_GET_FLAG_RXNE, UART_Transmit 0x05 100,
         GPIO_WritePin_GPIOA_PIN_5_SET, UART_Receive 8 10]\<rparr>"
  from getSettings_without_communication [of dead_env example_header ?s 0 ?s1]
    read_dead_example version_example
  have "getSettings dead_env example_header ?s = Some (not_communicating_settings 1, ?s1)"
    unfolding pwm_config_example freewheel_example by blast
  with read_dead_example version_example show ?thesis by blast
qed

section \<open>Transmit failures in a write transaction\<close>

lemma sendDatagramUnidirectional_loop_all_fail:
  "(\<forall>k. transmit_status env k \<noteq> HAL_OK) \<Longrightarrow>
   hal_calls (sendDatagramUnidirectional_loop env i d n s) =
     hal_calls s @
     concat (map (\<lambda>j. [UART_Transmit (datagram_byte d j) 1000, BSP_LED_On_LED_GREEN])
       [i..<unat n])"
proof (induction env i d n s rule: sendDatagramUnidirectional_loop.induct)
  case (1 env i d n s)
  show ?case
  proof (cases "i < unat n")
    case False
    then show ?thesis by (subst sendDatagramUnidirectional_loop.simps) simp
  next
    case True
    define st where "st = transmit_status env (length (hal_calls s))"
    define s1 where "s1 = log_call (UART_Transmit (datagram_byte d i) 1000) s"
    define s2 where "s2 = (if st \<noteq> HAL_OK then log_call BSP_LED_On_LED_GREEN s1 else s1)"
    have tx: "(st, s1) = HAL_UART_Transmit env (datagram_byte d i) 1000 s"
      by (simp add: HAL_UART_Transmit_def st_def s1_def)
    have step: "sendDatagramUnidirectional_loop env i d n s =
        sendDatagramUnidirectional_loop env (i + 1) d n s2"
      using True
      by (subst sendDatagramUnidirectional_loop.simps)
         (simp add: tx [symmetric] s2_def Let_def)
    have "st \<noteq> HAL_OK" using "1.prems" by (simp add: st_def)
    then have s2: "hal_calls s2 = hal_calls s @
        [UART_Transmit (datagram_byte d i) 1000, BSP_LED_On_LED_GREEN]"
      by (simp add: s2_def s1_def log_call_update)
    have "hal_calls (sendDatagramUnidirectional_loop env (i + 1) d n s2) =
        hal_calls s2 @
        concat (map (\<lambda>j. [UART_Transmit (datagram_byte d j) 1000, BSP_LED_On_LED_GREEN])
          [i + 1..<unat n])"
      by (rule "1.IH" [OF True refl refl tx s2_def "1.prems"])
    then show ?thesis
      using True unfolding step s2 by (simp add: upt_conv_Cons)
  qed
qed

lemma write_bytes_example:
  "write_bytes example_header example_driver 0x10 0x1F00 =
     [0x05, 0x00, 0x90, 0x00, 0x00, 0x1F, 0x00, 0xEC]"
  by code_simp

lemma write_all_fail:
  assumes "\<forall>k. transmit_status env k \<noteq> HAL_OK"
  shows "hal_calls (write_TMC2209 env H a d s) =
     hal_calls s @
     concat (map (\<lambda>b. [UART_Transmit b 1000, BSP_LED_On_LED_GREEN]) (write_bytes H s a d))"
  unfolding write_TMC2209_def sendDatagramUnidirectional_def write_bytes_def datagram_bytes_def
  by (simp add: sendDatagramUnidirectional_loop_all_fail [OF assms] map_concat comp_def
      del: upt_Suc)

text \<open>
  Claim C3: what the code does. \<^verbatim>\<open>write\<close> hands every byte of the write datagram to
  \<^verbatim>\<open>HAL_UART_Transmit\<close>, whatever the calls return: a failed transmit switches the
  green LED on and the loop goes on with the next byte. On a link where every transmit fails,
  all eight bytes of the datagram for register 0x10 are still handed over.
\<close>

theorem write_continues_after_transmit_failure:
  "transmitted_bytes (hal_calls (write_TMC2209 env H register_address data s)) =
     transmitted_bytes (hal_calls s) @ write_bytes H s register_address data \<and>
   length (write_bytes H s register_address data) = unat (WRITE_READ_REPLY_DATAGRAM_SIZE H) \<and>
   transmit_status dead_env 0 = HAL_ERROR \<and>
   hal_calls (write_TMC2209 dead_env example_header 0x10 0x1F00 example_driver) =
     [UART_Transmit 0x05 1000, BSP_LED_On_LED_GREEN, UART_Transmit 0x00 1000, BSP_LED_On_LED_GREEN,
      UART_Transmit 0x90 1000, BSP_LED_On_LED_GREEN, UART_Transmit 0x00 1000, BSP_LED_On_LED_GREEN,
      UART_Transmit 0x00 1000, BSP_LED_On_LED_GREEN, UART_Transmit 0x1F 1000, BSP_LED_On_LED_GREEN,
      UART_Transmit 0x00 1000, BSP_LED_On_LED_GREEN, UART_Transmit 0xEC 1000, BSP_LED_On_LED_GREEN]"
proof -
  have a: "transmitted_bytes (hal_calls (write_TMC2209 env H register_address data s)) =
     transmitted_bytes (hal_calls s) @ write_bytes H s register_address data"
    using write_TMC2209_calls [of env H register_address data s]
    by (auto simp add: transmitted_bytes_append write_bytes_def)
  have b: "length (write_bytes H s register_address data) =
      unat (WRITE_READ_REPLY_DATAGRAM_SIZE H)"
    by (simp add: write_bytes_def datagram_bytes_def)
  have c: "transmit_status dead_env 0 = HAL_ERROR" by (simp add: dead_env_def)
  have "\<forall>k. transmit_status dead_env k \<noteq> HAL_OK" by (simp add: dead_env_def)
  from write_all_fail [OF this, of example_header "0x10" "0x1F00" example_driver]
  have d: "hal_calls (write_TMC2209 dead_env example_header 0x10 0x1F00 example_driver) =
     [UART_Transmit 0x05 1000, BSP_LED_On_LED_GREEN, UART_Transmit 0x00 1000, BSP_LED_On_LED_GREEN,
      UART_Transmit 0x90 1000, BSP_LED_On_LED_GREEN, UART_Transmit 0x00 1000, BSP_LED_On_LED_GREEN,
      UART_Transmit 0x00 1000, BSP_LED_On_LED_GREEN, UART_Transmit 0x1F 1000, BSP_LED_On_LED_GREEN,
      UART_Transmit 0x00 1000, BSP_LED_On_LED_GREEN, UART_Transmit 0xEC 1000, BSP_LED_On_LED_GREEN]"
    unfolding write_bytes_example by (simp add: example_driver_def)
  from a b c d show ?thesis by blast
qed

end
